theory Spec2Isabelle
  imports Complex_Main "HOL-Library.Monad_Syntax"
begin

section \<open>Python values used by the sales-bonus analyzer\<close>

text \<open>
  The two source files \<^verbatim>\<open>bonus_app_streamlit.py\<close> and \<^verbatim>\<open>bonus_app_streamlit2.py\<close> hold the
  same core functions, line for line (\<^verbatim>\<open>parse_date\<close>, \<^verbatim>\<open>find_header_row\<close>,
  \<^verbatim>\<open>calculate_transaction_bonuses\<close>, \<^verbatim>\<open>analyze_workbook\<close>); they differ in the presentation
  code only. One embedding therefore covers both versions.

  A Python \<^verbatim>\<open>str\<close> is a sequence of Unicode code points, so a string is a list of code
  points here. Python numbers (\<^verbatim>\<open>int\<close> and \<^verbatim>\<open>float\<close>) are exact reals: rounding of
  binary floating point is outside the model.
\<close>

type_synonym pystr = "nat list"

datatype pyerror =
    KeyError pystr
  | IndexError
  | TypeError
  | ZeroDivisionError
  | LibraryError

text \<open>
  A \<^verbatim>\<open>dict\<close> keeps its keys in insertion order and assigning to an existing key keeps the
  key's position: an association list whose update replaces in place or appends.
\<close>

type_synonym ('k, 'v) dict = "('k \<times> 'v) list"

primrec dict_set :: "'k \<Rightarrow> 'v \<Rightarrow> ('k, 'v) dict \<Rightarrow> ('k, 'v) dict" where
  "dict_set k v [] = [(k, v)]"
| "dict_set k v (p # ps) = (if fst p = k then (k, v) # ps else p # dict_set k v ps)"

text \<open>Reading \<^verbatim>\<open>d[k]\<close> from a \<^verbatim>\<open>defaultdict\<close> whose factory gives \<open>dflt\<close>.\<close>

definition dict_get :: "'v \<Rightarrow> ('k, 'v) dict \<Rightarrow> 'k \<Rightarrow> 'v" where
  "dict_get dflt d k = (case map_of d k of None \<Rightarrow> dflt | Some v \<Rightarrow> v)"

section \<open>The bonus engine: \<^verbatim>\<open>calculate_transaction_bonuses\<close>\<close>

definition BONUS_OVER_400 :: real where "BONUS_OVER_400 = 20"
definition BONUS_OVER_700 :: real where "BONUS_OVER_700 = 10"
definition BONUS_AVG_130 :: real where "BONUS_AVG_130 = 20"
definition BONUS_AVG_140 :: real where "BONUS_AVG_140 = 25"
definition BONUS_AVG_150 :: real where "BONUS_AVG_150 = 35"

text \<open>
  The three keys of the breakdown are fixed string literals of the source; \<open>category_label\<close>
  gives each one's code points (the Hebrew texts for "bonus on transactions over 400",
  "bonus on transactions over 700" and "bonus on average transaction").
\<close>

datatype category = Over400 | Over700 | AvgBonus

fun category_label :: "category \<Rightarrow> pystr" where
  "category_label Over400 =
     [0x5D1, 0x5D5, 0x5E0, 0x5D5, 0x5E1, 0x20, 0x5E2, 0x5DC, 0x20, 0x5E2, 0x5E1, 0x5E7,
      0x5D0, 0x5D5, 0x5EA, 0x20, 0x5DE, 0x5E2, 0x5DC, 0x20, 0x34, 0x30, 0x30]"
| "category_label Over700 =
     [0x5D1, 0x5D5, 0x5E0, 0x5D5, 0x5E1, 0x20, 0x5E2, 0x5DC, 0x20, 0x5E2, 0x5E1, 0x5E7,
      0x5D0, 0x5D5, 0x5EA, 0x20, 0x5DE, 0x5E2, 0x5DC, 0x20, 0x37, 0x30, 0x30]"
| "category_label AvgBonus =
     [0x5D1, 0x5D5, 0x5E0, 0x5D5, 0x5E1, 0x20, 0x5E2, 0x5DC, 0x20, 0x5DE, 0x5DE, 0x5D5,
      0x5E6, 0x5E2, 0x20, 0x5E2, 0x5E1, 0x5E7, 0x5D4]"

text \<open>
  The engine's state is the pair of its two local dictionaries: \<^verbatim>\<open>bonuses\<close>, a
  \<^verbatim>\<open>defaultdict(float)\<close>, and \<^verbatim>\<open>details\<close>, a \<^verbatim>\<open>defaultdict\<close> of \<^verbatim>\<open>defaultdict(float)\<close>.
\<close>

type_synonym 'e bonuses = "('e, real) dict"
type_synonym 'e details = "('e, (category, real) dict) dict"
type_synonym 'e bstate = "'e bonuses \<times> 'e details"

text \<open>\<^verbatim>\<open>bonuses[emp] += amt\<close>\<close>

definition bonuses_add :: "'e \<Rightarrow> real \<Rightarrow> 'e bonuses \<Rightarrow> 'e bonuses" where
  "bonuses_add emp amt bonuses = dict_set emp (dict_get 0 bonuses emp + amt) bonuses"

text \<open>\<^verbatim>\<open>details[emp][cat] += amt\<close>: reading \<^verbatim>\<open>details[emp]\<close> creates the inner dictionary.\<close>

definition details_add :: "'e \<Rightarrow> category \<Rightarrow> real \<Rightarrow> 'e details \<Rightarrow> 'e details" where
  "details_add emp cat amt details =
     (let inner = dict_get [] details emp
      in dict_set emp (dict_set cat (dict_get 0 inner cat + amt) inner) details)"

text \<open>The body of \<^verbatim>\<open>for total in totals\<close>: two independent \<^verbatim>\<open>if\<close> statements.\<close>

definition transaction_step :: "'e \<Rightarrow> real \<Rightarrow> 'e bstate \<Rightarrow> 'e bstate" where
  "transaction_step emp tot st =
     (let st1 = (if tot > 400
                 then (bonuses_add emp BONUS_OVER_400 (fst st),
                       details_add emp Over400 BONUS_OVER_400 (snd st))
                 else st)
      in (if tot > 700
          then (bonuses_add emp BONUS_OVER_700 (fst st1),
                details_add emp Over700 BONUS_OVER_700 (snd st1))
          else st1))"

fun transactions_loop :: "'e \<Rightarrow> real list \<Rightarrow> 'e bstate \<Rightarrow> 'e bstate" where
  "transactions_loop emp [] st = st"
| "transactions_loop emp (tot # totals) st =
     transactions_loop emp totals (transaction_step emp tot st)"

text \<open>The \<^verbatim>\<open>if\<close>/\<^verbatim>\<open>elif\<close>/\<^verbatim>\<open>elif\<close> chain on the daily average.\<close>

definition average_step :: "'e \<Rightarrow> real \<Rightarrow> 'e bstate \<Rightarrow> 'e bstate" where
  "average_step emp avg st =
     (if avg > 150
      then (bonuses_add emp BONUS_AVG_150 (fst st), details_add emp AvgBonus BONUS_AVG_150 (snd st))
      else if avg > 140
      then (bonuses_add emp BONUS_AVG_140 (fst st), details_add emp AvgBonus BONUS_AVG_140 (snd st))
      else if avg > 130
      then (bonuses_add emp BONUS_AVG_130 (fst st), details_add emp AvgBonus BONUS_AVG_130 (snd st))
      else st)"

text \<open>Python's \<^verbatim>\<open>/\<close> raises \<^verbatim>\<open>ZeroDivisionError\<close> on a zero divisor.\<close>

definition py_truediv :: "real \<Rightarrow> real \<Rightarrow> pyerror + real" where
  "py_truediv a b = (if b = 0 then Inl ZeroDivisionError else Inr (a / b))"

text \<open>\<^verbatim>\<open>avg = sum(totals) / cnt if cnt else 0\<close>\<close>

definition day_average :: "real list \<Rightarrow> int \<Rightarrow> pyerror + real" where
  "day_average totals cnt =
     (if cnt \<noteq> 0 then py_truediv (sum_list totals) (real_of_int cnt) else Inr 0)"

text \<open>
  The counts are the \<^verbatim>\<open>defaultdict(lambda: defaultdict(int))\<close> that \<^verbatim>\<open>analyze_workbook\<close>
  passes in: a missing employee or date reads as 0.
\<close>

type_synonym ('e, 'd) counts = "('e, ('d, int) dict) dict"
type_synonym ('e, 'd) sales = "('e, ('d, real list) dict) dict"

definition count_of :: "('e, 'd) counts \<Rightarrow> 'e \<Rightarrow> 'd \<Rightarrow> int" where
  "count_of transactions_count emp date = dict_get 0 (dict_get [] transactions_count emp) date"

text \<open>The body of \<^verbatim>\<open>for date, totals in daily.items()\<close>.\<close>

definition day_step ::
    "('e, 'd) counts \<Rightarrow> 'e \<Rightarrow> 'd \<Rightarrow> real list \<Rightarrow> 'e bstate \<Rightarrow> pyerror + 'e bstate" where
  "day_step transactions_count emp date totals st =
     (case day_average totals (count_of transactions_count emp date) of
        Inl err \<Rightarrow> Inl err
      | Inr avg \<Rightarrow> Inr (average_step emp avg (transactions_loop emp totals st)))"

fun days_loop ::
    "('e, 'd) counts \<Rightarrow> 'e \<Rightarrow> ('d, real list) dict \<Rightarrow> 'e bstate \<Rightarrow> pyerror + 'e bstate" where
  "days_loop transactions_count emp [] st = Inr st"
| "days_loop transactions_count emp ((date, totals) # daily) st =
     (case day_step transactions_count emp date totals st of
        Inl err \<Rightarrow> Inl err
      | Inr st' \<Rightarrow> days_loop transactions_count emp daily st')"

fun employees_loop ::
    "('e, 'd) counts \<Rightarrow> ('e, 'd) sales \<Rightarrow> 'e bstate \<Rightarrow> pyerror + 'e bstate" where
  "employees_loop transactions_count [] st = Inr st"
| "employees_loop transactions_count ((emp, daily) # sales_data) st =
     (case days_loop transactions_count emp daily st of
        Inl err \<Rightarrow> Inl err
      | Inr st' \<Rightarrow> employees_loop transactions_count sales_data st')"

definition calculate_transaction_bonuses ::
    "('e, 'd) sales \<Rightarrow> ('e, 'd) counts \<Rightarrow> pyerror + 'e bstate" where
  "calculate_transaction_bonuses sales_data transactions_count =
     employees_loop transactions_count sales_data ([], [])"

section \<open>Sheets, cells and dates\<close>

text \<open>
  \<^verbatim>\<open>str.strip()\<close> and the \<^verbatim>\<open>\s\<close> of the \<^verbatim>\<open>re\<close> module use the same test for white space:
  the code points below.
\<close>

definition is_space :: "nat \<Rightarrow> bool" where
  "is_space c \<longleftrightarrow>
     c \<in> set [0x09, 0x0A, 0x0B, 0x0C, 0x0D, 0x1C, 0x1D, 0x1E, 0x1F, 0x20, 0x85, 0xA0,
              0x1680, 0x2028, 0x2029, 0x202F, 0x205F, 0x3000]
     \<or> (0x2000 \<le> c \<and> c \<le> 0x200A)"

definition strip :: "pystr \<Rightarrow> pystr" where
  "strip s = rev (dropWhile is_space (rev (dropWhile is_space s)))"

datatype pydate = Date (year: nat) (month: nat) (day: nat)

datatype pydatetime =
  DateTime (date_of: pydate) (hour: nat) (minute: nat) (second: nat) (microsecond: nat)

text \<open>
  The values \<^verbatim>\<open>iter_rows(values_only=True)\<close> yields for a cell: \<^verbatim>\<open>None\<close>, a string, an
  \<^verbatim>\<open>int\<close>, a \<^verbatim>\<open>float\<close>, a \<^verbatim>\<open>bool\<close>, a \<^verbatim>\<open>datetime.datetime\<close>, a \<^verbatim>\<open>datetime.date\<close>
  (which is not a \<^verbatim>\<open>datetime.datetime\<close>; a cell stored as an ISO 8601 date comes out so), a
  \<^verbatim>\<open>datetime.time\<close> (microseconds since midnight) or a \<^verbatim>\<open>datetime.timedelta\<close>
  (microseconds).
\<close>

datatype cell =
    CNone
  | CStr pystr
  | CInt int
  | CFloat real
  | CBool bool
  | CDateTime pydatetime
  | CDate pydate
  | CTime nat
  | CTimedelta int

type_synonym row = "cell list"
type_synonym sheet = "row list"

text \<open>The truth value of a cell, as \<^verbatim>\<open>if emp\<close> and \<^verbatim>\<open>... or 1\<close> test it.\<close>

fun truthy :: "cell \<Rightarrow> bool" where
  "truthy CNone = False"
| "truthy (CStr s) = (s \<noteq> [])"
| "truthy (CInt i) = (i \<noteq> 0)"
| "truthy (CFloat x) = (x \<noteq> 0)"
| "truthy (CBool b) = b"
| "truthy (CDateTime dt) = True"
| "truthy (CDate d) = True"
| "truthy (CTime t) = True"
| "truthy (CTimedelta d) = (d \<noteq> 0)"

text \<open>\<^verbatim>\<open>isinstance(v, (int, float))\<close>: a \<^verbatim>\<open>bool\<close> is an \<^verbatim>\<open>int\<close>.\<close>

fun num_of :: "cell \<Rightarrow> real option" where
  "num_of (CInt i) = Some (real_of_int i)"
| "num_of (CFloat x) = Some x"
| "num_of (CBool b) = Some (if b then 1 else 0)"
| "num_of _ = None"

text \<open>
  Dictionary keys compare with \<^verbatim>\<open>==\<close>, under which \<^verbatim>\<open>1\<close>, \<^verbatim>\<open>1.0\<close> and \<^verbatim>\<open>True\<close> are one key:
  a key is the cell with its number taken as a real.
\<close>

datatype pykey =
    KNone
  | KStr pystr
  | KNum real
  | KDateTime pydatetime
  | KDate pydate
  | KTime nat
  | KTimedelta int

fun key_of :: "cell \<Rightarrow> pykey" where
  "key_of CNone = KNone"
| "key_of (CStr s) = KStr s"
| "key_of (CInt i) = KNum (real_of_int i)"
| "key_of (CFloat x) = KNum x"
| "key_of (CBool b) = KNum (if b then 1 else 0)"
| "key_of (CDateTime dt) = KDateTime dt"
| "key_of (CDate d) = KDate d"
| "key_of (CTime t) = KTime t"
| "key_of (CTimedelta d) = KTimedelta d"

definition err_bind :: "'e + 'a \<Rightarrow> ('a \<Rightarrow> 'e + 'b) \<Rightarrow> 'e + 'b" where
  "err_bind m f = (case m of Inl e \<Rightarrow> Inl e | Inr x \<Rightarrow> f x)"

text \<open>\<^verbatim>\<open>row[i]\<close> on a tuple, for an index that is not negative.\<close>

definition row_get :: "row \<Rightarrow> nat \<Rightarrow> pyerror + cell" where
  "row_get row i = (if i < length row then Inr (row ! i) else Inl IndexError)"

text \<open>\<^verbatim>\<open>col_idx[label]\<close> on a plain \<^verbatim>\<open>dict\<close>.\<close>

definition dict_lookup :: "(pystr, 'v) dict \<Rightarrow> pystr \<Rightarrow> pyerror + 'v" where
  "dict_lookup d k = (case map_of d k of None \<Rightarrow> Inl (KeyError k) | Some v \<Rightarrow> Inr v)"

section \<open>The header locator: \<^verbatim>\<open>find_header_row\<close>\<close>

text \<open>
  \<^verbatim>\<open>str(value)\<close> returns a string cell as it is. What it prints for the other kinds of
  cell (the shortest decimal of a float, the ISO text of a date) is the interpreter's
  business and is the parameter \<open>str_of\<close>.
\<close>

definition py_str :: "(cell \<Rightarrow> pystr) \<Rightarrow> cell \<Rightarrow> pystr" where
  "py_str str_of v = (case v of CStr s \<Rightarrow> s | _ \<Rightarrow> str_of v)"

text \<open>The inner loop \<^verbatim>\<open>for i, value in enumerate(row)\<close>, from column \<open>i\<close> on.\<close>

fun build_col_idx ::
    "(cell \<Rightarrow> pystr) \<Rightarrow> nat \<Rightarrow> row \<Rightarrow> (pystr, nat) dict \<Rightarrow> (pystr, nat) dict" where
  "build_col_idx str_of i [] col_idx = col_idx"
| "build_col_idx str_of i (v # row) col_idx =
     (if v = CNone then build_col_idx str_of (Suc i) row col_idx
      else (let key = strip (py_str str_of v)
            in build_col_idx str_of (Suc i) row
                 (if key \<noteq> [] then dict_set key i col_idx else col_idx)))"

text \<open>The message of the \<^verbatim>\<open>KeyError\<close> raised when no row qualifies (a fixed Hebrew text).\<close>

definition HEADER_NOT_FOUND :: pystr where
  "HEADER_NOT_FOUND =
     [0x5DC, 0x5D0, 0x20, 0x5E0, 0x5DE, 0x5E6, 0x5D0, 0x5D4, 0x20, 0x5E9, 0x5D5, 0x5E8, 0x5EA,
      0x20, 0x5DB, 0x5D5, 0x5EA, 0x5E8, 0x5D5, 0x5EA, 0x20, 0x5DE, 0x5EA, 0x5D0, 0x5D9, 0x5DE,
      0x5D4, 0x20, 0x5D1, 0x5E7, 0x5D5, 0x5D1, 0x5E5, 0x20, 0x28, 0x5E2, 0x5DE, 0x5D5, 0x5D3,
      0x5D5, 0x5EA, 0x20, 0x5D7, 0x5D5, 0x5D1, 0x5D4, 0x20, 0x5DC, 0x5D0, 0x20, 0x5D0, 0x5D5,
      0x5EA, 0x5E8, 0x5D5, 0x20, 0x5D9, 0x5D7, 0x5D3, 0x29, 0x2E]"

text \<open>
  The outer loop over the rows, \<open>row_idx\<close> being the number of the first row of the list
  (\<^verbatim>\<open>enumerate(..., start=1)\<close>).
\<close>

fun header_scan ::
    "(cell \<Rightarrow> pystr) \<Rightarrow> nat \<Rightarrow> sheet \<Rightarrow> pystr list \<Rightarrow> pyerror + nat \<times> (pystr, nat) dict" where
  "header_scan str_of row_idx [] required_cols = Inl (KeyError HEADER_NOT_FOUND)"
| "header_scan str_of row_idx (row # rows) required_cols =
     (let col_idx = build_col_idx str_of 0 row []
      in if col_idx \<noteq> [] \<and> list_all (\<lambda>col. col \<in> set (map fst col_idx)) required_cols
         then Inr (row_idx, col_idx)
         else header_scan str_of (Suc row_idx) rows required_cols)"

definition find_header_row ::
    "(cell \<Rightarrow> pystr) \<Rightarrow> sheet \<Rightarrow> pystr list \<Rightarrow> pyerror + nat \<times> (pystr, nat) dict" where
  "find_header_row str_of sheet required_cols = header_scan str_of 1 sheet required_cols"

text \<open>
  The words of the specification, to compare the code with: the label of a cell is its
  non-empty, whitespace-trimmed value, and the labels of a row are the labels of its cells.
\<close>

definition cell_label :: "(cell \<Rightarrow> pystr) \<Rightarrow> cell \<Rightarrow> pystr option" where
  "cell_label str_of v =
     (if v = CNone \<or> strip (py_str str_of v) = [] then None
      else Some (strip (py_str str_of v)))"

definition row_labels :: "(cell \<Rightarrow> pystr) \<Rightarrow> row \<Rightarrow> pystr set" where
  "row_labels str_of row = set (List.map_filter (cell_label str_of) row)"

section \<open>Dates: \<^verbatim>\<open>parse_date\<close> and the date branch of \<^verbatim>\<open>analyze_workbook\<close>\<close>

text \<open>
  \<^verbatim>\<open>datetime.strptime\<close> turns a format into a regular expression, matches it at the start
  of the text, rejects text left over, and builds the date, each failure being a
  \<^verbatim>\<open>ValueError\<close> (here \<open>None\<close>). The three formats of \<^verbatim>\<open>parse_date\<close> use the directives
  below, given with their expressions in CPython's \<^verbatim>\<open>_strptime\<close>. A field is followed by a
  literal separator or by the end of the text, so the text of a field has to match one
  alternative as a whole.

  The class \<^verbatim>\<open>\d\<close> of a text pattern is every Unicode decimal digit, and \<^verbatim>\<open>int\<close> reads
  each of them by its value. The decimal digits come in runs of ten, from the digit zero to
  the digit nine of a script: \<open>DECIMAL_ZEROS\<close> lists the zero of every run of Unicode 14.0,
  the version of CPython 3.11. Ranges written out in an expression, such as \<^verbatim>\<open>[1-9]\<close>, hold
  ASCII digits only.
\<close>

definition DECIMAL_ZEROS :: "nat list" where
  "DECIMAL_ZEROS =
     [0x30, 0x660, 0x6F0, 0x7C0, 0x966, 0x9E6, 0xA66, 0xAE6, 0xB66, 0xBE6, 0xC66, 0xCE6, 0xD66,
      0xDE6, 0xE50, 0xED0, 0xF20, 0x1040, 0x1090, 0x17E0, 0x1810, 0x1946, 0x19D0, 0x1A80,
      0x1A90, 0x1B50, 0x1BB0, 0x1C40, 0x1C50, 0xA620, 0xA8D0, 0xA900, 0xA9D0, 0xA9F0, 0xAA50,
      0xABF0, 0xFF10, 0x104A0, 0x10D30, 0x11066, 0x110F0, 0x11136, 0x111D0, 0x112F0, 0x11450,
      0x114D0, 0x11650, 0x116C0, 0x11730, 0x118E0, 0x11950, 0x11C50, 0x11D50, 0x11DA0, 0x16A60,
      0x16AC0, 0x16B50, 0x1D7CE, 0x1D7D8, 0x1D7E2, 0x1D7EC, 0x1D7F6, 0x1E140, 0x1E2F0, 0x1E950,
      0x1FBF0]"

definition digit_zero :: "nat \<Rightarrow> nat option" where
  "digit_zero c = find (\<lambda>z. z \<le> c \<and> c < z + 10) DECIMAL_ZEROS"

definition is_digit :: "nat \<Rightarrow> bool" where
  "is_digit c \<longleftrightarrow> digit_zero c \<noteq> None"

definition digit_val :: "nat \<Rightarrow> nat" where
  "digit_val c = (case digit_zero c of Some z \<Rightarrow> c - z | None \<Rightarrow> 0)"

text \<open>\<^verbatim>\<open>%d\<close>: \<^verbatim>\<open>3[0-1]|[1-2]\d|0[1-9]|[1-9]| [1-9]\<close>\<close>

fun day_field :: "pystr \<Rightarrow> nat option" where
  "day_field [a, b] =
     (if a = 0x33 \<and> (b = 0x30 \<or> b = 0x31) then Some (30 + digit_val b)
      else if (a = 0x31 \<or> a = 0x32) \<and> is_digit b then Some (10 * digit_val a + digit_val b)
      else if a = 0x30 \<and> 0x31 \<le> b \<and> b \<le> 0x39 then Some (digit_val b)
      else if a = 0x20 \<and> 0x31 \<le> b \<and> b \<le> 0x39 then Some (digit_val b)
      else None)"
| "day_field [a] = (if 0x31 \<le> a \<and> a \<le> 0x39 then Some (digit_val a) else None)"
| "day_field s = None"

text \<open>\<^verbatim>\<open>%m\<close>: \<^verbatim>\<open>1[0-2]|0[1-9]|[1-9]\<close>\<close>

fun month_field :: "pystr \<Rightarrow> nat option" where
  "month_field [a, b] =
     (if a = 0x31 \<and> 0x30 \<le> b \<and> b \<le> 0x32 then Some (10 + digit_val b)
      else if a = 0x30 \<and> 0x31 \<le> b \<and> b \<le> 0x39 then Some (digit_val b)
      else None)"
| "month_field [a] = (if 0x31 \<le> a \<and> a \<le> 0x39 then Some (digit_val a) else None)"
| "month_field s = None"

text \<open>\<^verbatim>\<open>%H\<close>: \<^verbatim>\<open>2[0-3]|[0-1]\d|\d\<close>\<close>

fun hour_field :: "pystr \<Rightarrow> nat option" where
  "hour_field [a, b] =
     (if a = 0x32 \<and> 0x30 \<le> b \<and> b \<le> 0x33 then Some (20 + digit_val b)
      else if (a = 0x30 \<or> a = 0x31) \<and> is_digit b then Some (10 * digit_val a + digit_val b)
      else None)"
| "hour_field [a] = (if is_digit a then Some (digit_val a) else None)"
| "hour_field s = None"

text \<open>\<^verbatim>\<open>%M\<close>: \<^verbatim>\<open>[0-5]\d|\d\<close>\<close>

fun minute_field :: "pystr \<Rightarrow> nat option" where
  "minute_field [a, b] =
     (if 0x30 \<le> a \<and> a \<le> 0x35 \<and> is_digit b then Some (10 * digit_val a + digit_val b)
      else None)"
| "minute_field [a] = (if is_digit a then Some (digit_val a) else None)"
| "minute_field s = None"

text \<open>\<^verbatim>\<open>%Y\<close>: \<^verbatim>\<open>\d\d\d\d\<close>, returned with the text after it.\<close>

definition year_then :: "pystr \<Rightarrow> (nat \<times> pystr) option" where
  "year_then s =
     (case s of
        a # b # c # d # rest \<Rightarrow>
          (if is_digit a \<and> is_digit b \<and> is_digit c \<and> is_digit d
           then Some (1000 * digit_val a + 100 * digit_val b + 10 * digit_val c + digit_val d, rest)
           else None)
      | _ \<Rightarrow> None)"

text \<open>The text of a field that ends at the separator \<open>sep\<close>, and the text after the separator.\<close>

definition field_before :: "nat \<Rightarrow> pystr \<Rightarrow> (pystr \<times> pystr) option" where
  "field_before sep s =
     (case dropWhile (\<lambda>c. c \<noteq> sep) s of
        [] \<Rightarrow> None
      | c # rest \<Rightarrow> Some (takeWhile (\<lambda>c. c \<noteq> sep) s, rest))"

text \<open>The constructor \<^verbatim>\<open>datetime(year, month, day, hour, minute)\<close> checks the calendar.\<close>

definition is_leap :: "nat \<Rightarrow> bool" where
  "is_leap y \<longleftrightarrow> y mod 4 = 0 \<and> (y mod 100 \<noteq> 0 \<or> y mod 400 = 0)"

definition days_in_month :: "nat \<Rightarrow> nat \<Rightarrow> nat" where
  "days_in_month y m =
     (if m = 2 then (if is_leap y then 29 else 28)
      else if m = 4 \<or> m = 6 \<or> m = 9 \<or> m = 11 then 30 else 31)"

definition valid_date :: "nat \<Rightarrow> nat \<Rightarrow> nat \<Rightarrow> bool" where
  "valid_date y m d \<longleftrightarrow>
     1 \<le> y \<and> y \<le> 9999 \<and> 1 \<le> m \<and> m \<le> 12 \<and> 1 \<le> d \<and> d \<le> days_in_month y m"

definition make_datetime :: "nat \<Rightarrow> nat \<Rightarrow> nat \<Rightarrow> nat \<Rightarrow> nat \<Rightarrow> pydatetime option" where
  "make_datetime y m d h mi =
     (if valid_date y m d \<and> h < 24 \<and> mi < 60 then Some (DateTime (Date y m d) h mi 0 0)
      else None)"

text \<open>
  The three format strings of \<^verbatim>\<open>parse_date\<close>: \<^verbatim>\<open>"%d/%m/%Y %H:%M"\<close>, \<^verbatim>\<open>"%Y-%m-%d"\<close> and
  \<^verbatim>\<open>"%d/%m/%Y"\<close>. The blank of the first one stands for one or more white-space characters.
\<close>

datatype date_format = DMY_HM | YMD | DMY

fun strptime :: "pystr \<Rightarrow> date_format \<Rightarrow> pydatetime option" where
  "strptime s DMY_HM =
     do {
       (d_txt, r1) \<leftarrow> field_before 0x2F s;
       d \<leftarrow> day_field d_txt;
       (m_txt, r2) \<leftarrow> field_before 0x2F r1;
       m \<leftarrow> month_field m_txt;
       (y, r3) \<leftarrow> year_then r2;
       (if r3 \<noteq> [] \<and> is_space (hd r3)
        then do {
          (h_txt, r4) \<leftarrow> field_before 0x3A (dropWhile is_space r3);
          h \<leftarrow> hour_field h_txt;
          mi \<leftarrow> minute_field r4;
          make_datetime y m d h mi
        }
        else None)
     }"
| "strptime s YMD =
     do {
       (y, r1) \<leftarrow> year_then s;
       (if r1 \<noteq> [] \<and> hd r1 = 0x2D
        then do {
          (m_txt, r2) \<leftarrow> field_before 0x2D (tl r1);
          m \<leftarrow> month_field m_txt;
          d \<leftarrow> day_field r2;
          make_datetime y m d 0 0
        }
        else None)
     }"
| "strptime s DMY =
     do {
       (d_txt, r1) \<leftarrow> field_before 0x2F s;
       d \<leftarrow> day_field d_txt;
       (m_txt, r2) \<leftarrow> field_before 0x2F r1;
       m \<leftarrow> month_field m_txt;
       (y, r3) \<leftarrow> year_then r2;
       (if r3 = [] then make_datetime y m d 0 0 else None)
     }"

text \<open>The loop of \<^verbatim>\<open>parse_date\<close> over the formats it has left to try.\<close>

fun parse_date_loop :: "pystr \<Rightarrow> date_format list \<Rightarrow> pydate option" where
  "parse_date_loop date_str [] = None"
| "parse_date_loop date_str (fmt # fmts) =
     (case strptime date_str fmt of
        Some dt \<Rightarrow> Some (date_of dt)
      | None \<Rightarrow> parse_date_loop date_str fmts)"

definition parse_date :: "pystr \<Rightarrow> pydate option" where
  "parse_date date_str = parse_date_loop date_str [DMY_HM, YMD, DMY]"

text \<open>
  The date branch of the row loop: \<^verbatim>\<open>isinstance(date_raw, datetime)\<close>, then
  \<^verbatim>\<open>isinstance(date_raw, (int, float))\<close>, then \<^verbatim>\<open>isinstance(date_raw, str)\<close>, then \<^verbatim>\<open>else\<close>.
  \<^verbatim>\<open>from_excel\<close> belongs to openpyxl: the parameter \<open>from_excel_date\<close> stands for
  \<^verbatim>\<open>from_excel(v).date()\<close>, which gives a date or raises, and no handler surrounds the call.
\<close>

definition normalize_date :: "(real \<Rightarrow> pyerror + pydate) \<Rightarrow> cell \<Rightarrow> pyerror + pydate option" where
  "normalize_date from_excel_date date_raw =
     (case date_raw of
        CDateTime dt \<Rightarrow> Inr (Some (date_of dt))
      | _ \<Rightarrow>
        (case num_of date_raw of
           Some x \<Rightarrow> err_bind (from_excel_date x) (\<lambda>d. Inr (Some d))
         | None \<Rightarrow>
           (case date_raw of
              CStr date_str \<Rightarrow> Inr (parse_date date_str)
            | _ \<Rightarrow> Inr None)))"

text \<open>
  The words of the specification, to compare \<^verbatim>\<open>parse_date\<close> with: the texts that
  \<^verbatim>\<open>strftime\<close> prints for a date in the three formats, with two-digit day, month, hour and
  minute and a four-digit year.
\<close>

definition two_digits :: "nat \<Rightarrow> pystr" where
  "two_digits n = [0x30 + n div 10, 0x30 + n mod 10]"

definition four_digits :: "nat \<Rightarrow> pystr" where
  "four_digits n =
     [0x30 + n div 1000, 0x30 + n div 100 mod 10, 0x30 + n div 10 mod 10, 0x30 + n mod 10]"

definition text_ymd :: "pydate \<Rightarrow> pystr" where
  "text_ymd dt = four_digits (year dt) @ [0x2D] @ two_digits (month dt) @ [0x2D] @ two_digits (day dt)"

definition text_dmy :: "pydate \<Rightarrow> pystr" where
  "text_dmy dt = two_digits (day dt) @ [0x2F] @ two_digits (month dt) @ [0x2F] @ four_digits (year dt)"

definition text_dmy_hm :: "pydate \<Rightarrow> nat \<Rightarrow> nat \<Rightarrow> pystr" where
  "text_dmy_hm dt h mi = text_dmy dt @ [0x20] @ two_digits h @ [0x3A] @ two_digits mi"

section \<open>The aggregator: the row loop and the summing loop of \<^verbatim>\<open>analyze_workbook\<close>\<close>

text \<open>
  The column labels (Hebrew for "quantity", "invoice number", "seller", "date" and
  "net unit price").
\<close>

definition QUANTITY_COL_NAME :: pystr where
  "QUANTITY_COL_NAME = [0x5DB, 0x5DE, 0x5D5, 0x5EA]"

definition COL_INVOICE :: pystr where
  "COL_INVOICE = [0x5DE, 0x5E1, 0x5E4, 0x5E8, 0x20, 0x5D7, 0x5E9, 0x5D1, 0x5D5, 0x5E0, 0x5D9, 0x5EA]"

definition COL_EMPLOYEE :: pystr where
  "COL_EMPLOYEE = [0x5DE, 0x5D5, 0x5DB, 0x5E8, 0x5DF]"

definition COL_DATE :: pystr where
  "COL_DATE = [0x5EA, 0x5D0, 0x5E8, 0x5D9, 0x5DA]"

definition COL_UNIT_PRICE :: pystr where
  "COL_UNIT_PRICE =
     [0x5DE, 0x5D7, 0x5D9, 0x5E8, 0x20, 0x5E0, 0x5D8, 0x5D5, 0x20, 0x5DC, 0x5D9, 0x5D7, 0x5D9,
      0x5D3, 0x5D4]"

definition REQUIRED_COLS :: "pystr list" where
  "REQUIRED_COLS = [COL_INVOICE, COL_EMPLOYEE, COL_DATE, COL_UNIT_PRICE]"

text \<open>
  A line total is a number, or some other object (a repeated string, a scaled
  \<^verbatim>\<open>timedelta\<close>) on which the later \<^verbatim>\<open>sum\<close> raises \<^verbatim>\<open>TypeError\<close>.
\<close>

datatype pyval = VNum real | VOther

fun is_intlike :: "cell \<Rightarrow> bool" where
  "is_intlike (CInt i) = True"
| "is_intlike (CBool b) = True"
| "is_intlike v = False"

fun is_str :: "cell \<Rightarrow> bool" where
  "is_str (CStr s) = True"
| "is_str v = False"

fun is_timedelta :: "cell \<Rightarrow> bool" where
  "is_timedelta (CTimedelta d) = True"
| "is_timedelta v = False"

text \<open>\<^verbatim>\<open>unit * qty\<close>\<close>

definition py_mul :: "cell \<Rightarrow> cell \<Rightarrow> pyerror + pyval" where
  "py_mul a b =
     (case (num_of a, num_of b) of
        (Some x, Some y) \<Rightarrow> Inr (VNum (x * y))
      | _ \<Rightarrow>
        (if (is_str a \<and> is_intlike b) \<or> (is_intlike a \<and> is_str b) then Inr VOther
         else if (is_timedelta a \<and> num_of b \<noteq> None) \<or> (num_of a \<noteq> None \<and> is_timedelta b)
         then Inr VOther
         else Inl TypeError))"

text \<open>\<^verbatim>\<open>sum(lines)\<close>: additions from the left, starting from 0.\<close>

fun py_sum_from :: "real \<Rightarrow> pyval list \<Rightarrow> pyerror + real" where
  "py_sum_from acc [] = Inr acc"
| "py_sum_from acc (VNum x # vs) = py_sum_from (acc + x) vs"
| "py_sum_from acc (VOther # vs) = Inl TypeError"

definition py_sum :: "pyval list \<Rightarrow> pyerror + real" where
  "py_sum vs = py_sum_from 0 vs"

text \<open>\<^verbatim>\<open>row[col_idx[label]]\<close>\<close>

definition cell_at :: "(pystr, nat) dict \<Rightarrow> row \<Rightarrow> pystr \<Rightarrow> pyerror + cell" where
  "cell_at col_idx row label = err_bind (dict_lookup col_idx label) (row_get row)"

text \<open>
  The quantity of a row. The code stores \<^verbatim>\<open>None\<close> under the quantity label when the header
  has no such column; here the label is then simply absent from \<open>col_idx\<close>.
\<close>

definition row_quantity :: "(pystr, nat) dict \<Rightarrow> row \<Rightarrow> pyerror + cell" where
  "row_quantity col_idx row =
     (case map_of col_idx QUANTITY_COL_NAME of
        None \<Rightarrow> Inr (CInt 1)
      | Some j \<Rightarrow> err_bind (row_get row j) (\<lambda>q. Inr (if truthy q then q else CInt 1)))"

text \<open>
  \<^verbatim>\<open>per_invoice\<close>: employee, then the pair of date and invoice, then the list of line totals.
\<close>

type_synonym per_invoice = "(pykey, (pydate \<times> pykey, pyval list) dict) dict"

text \<open>\<^verbatim>\<open>per_invoice[emp][(date, invoice)].append(line_total)\<close>\<close>

definition append_line :: "pykey \<Rightarrow> pydate \<times> pykey \<Rightarrow> pyval \<Rightarrow> per_invoice \<Rightarrow> per_invoice" where
  "append_line emp k line_total per_invoice =
     (let invoices = dict_get [] per_invoice emp
      in dict_set emp (dict_set k (dict_get [] invoices k @ [line_total]) invoices) per_invoice)"

text \<open>The body of the loop over the rows below the header.\<close>

definition process_row ::
    "(real \<Rightarrow> pyerror + pydate) \<Rightarrow> (pystr, nat) dict \<Rightarrow> row \<Rightarrow> per_invoice \<Rightarrow> pyerror + per_invoice" where
  "process_row from_excel_date col_idx row per_invoice =
     err_bind (cell_at col_idx row COL_INVOICE) (\<lambda>invoice.
     err_bind (cell_at col_idx row COL_EMPLOYEE) (\<lambda>emp.
     err_bind (cell_at col_idx row COL_DATE) (\<lambda>date_raw.
     err_bind (cell_at col_idx row COL_UNIT_PRICE) (\<lambda>unit_price.
     err_bind (row_quantity col_idx row) (\<lambda>qty.
     err_bind (normalize_date from_excel_date date_raw) (\<lambda>date.
       (case date of
          None \<Rightarrow> Inr per_invoice
        | Some d \<Rightarrow>
            (if truthy emp \<and> unit_price \<noteq> CNone
             then err_bind (py_mul unit_price qty) (\<lambda>line_total.
                    Inr (append_line (key_of emp) (d, key_of invoice) line_total per_invoice))
             else Inr per_invoice))))))))"

fun rows_loop ::
    "(real \<Rightarrow> pyerror + pydate) \<Rightarrow> (pystr, nat) dict \<Rightarrow> row list \<Rightarrow> per_invoice
       \<Rightarrow> pyerror + per_invoice" where
  "rows_loop from_excel_date col_idx [] per_invoice = Inr per_invoice"
| "rows_loop from_excel_date col_idx (row # rows) per_invoice =
     err_bind (process_row from_excel_date col_idx row per_invoice)
       (rows_loop from_excel_date col_idx rows)"

text \<open>
  The summing loop works on \<^verbatim>\<open>transactions_count\<close> and \<^verbatim>\<open>daily_totals\<close>.
\<close>

type_synonym tstate = "(pykey, pydate) counts \<times> (pykey, pydate) sales"

text \<open>\<^verbatim>\<open>transactions_count[emp][date] += 1\<close>\<close>

definition count_incr :: "pykey \<Rightarrow> pydate \<Rightarrow> (pykey, pydate) counts \<Rightarrow> (pykey, pydate) counts" where
  "count_incr emp date transactions_count =
     (let days = dict_get [] transactions_count emp
      in dict_set emp (dict_set date (dict_get 0 days date + 1) days) transactions_count)"

text \<open>\<^verbatim>\<open>daily_totals[emp][date].append(total)\<close>\<close>

definition totals_append ::
    "pykey \<Rightarrow> pydate \<Rightarrow> real \<Rightarrow> (pykey, pydate) sales \<Rightarrow> (pykey, pydate) sales" where
  "totals_append emp date tot daily_totals =
     (let days = dict_get [] daily_totals emp
      in dict_set emp (dict_set date (dict_get [] days date @ [tot]) days) daily_totals)"

definition invoice_step :: "pykey \<Rightarrow> pydate \<Rightarrow> pyval list \<Rightarrow> tstate \<Rightarrow> pyerror + tstate" where
  "invoice_step emp date lines st =
     err_bind (py_sum lines) (\<lambda>tot.
       Inr (count_incr emp date (fst st), totals_append emp date tot (snd st)))"

fun invoices_loop ::
    "pykey \<Rightarrow> (pydate \<times> pykey, pyval list) dict \<Rightarrow> tstate \<Rightarrow> pyerror + tstate" where
  "invoices_loop emp [] st = Inr st"
| "invoices_loop emp (((date, invoice), lines) # invoices) st =
     err_bind (invoice_step emp date lines st) (invoices_loop emp invoices)"

fun summing_loop :: "per_invoice \<Rightarrow> tstate \<Rightarrow> pyerror + tstate" where
  "summing_loop [] st = Inr st"
| "summing_loop ((emp, invoices) # per_invoice) st =
     err_bind (invoices_loop emp invoices st) (summing_loop per_invoice)"

text \<open>
  \<^verbatim>\<open>analyze_workbook\<close> from the active sheet on (loading the workbook is openpyxl's part). It
  returns \<^verbatim>\<open>bonuses, details, daily_totals, transactions_count\<close>.
\<close>

definition analyze_workbook ::
    "(cell \<Rightarrow> pystr) \<Rightarrow> (real \<Rightarrow> pyerror + pydate) \<Rightarrow> sheet \<Rightarrow>
       pyerror + (pykey bonuses \<times> pykey details \<times> (pykey, pydate) sales \<times> (pykey, pydate) counts)" where
  "analyze_workbook str_of from_excel_date sheet =
     err_bind (find_header_row str_of sheet REQUIRED_COLS) (\<lambda>(header_row, col_idx).
     err_bind (rows_loop from_excel_date col_idx (drop header_row sheet) []) (\<lambda>per_invoice.
     err_bind (summing_loop per_invoice ([], [])) (\<lambda>(transactions_count, daily_totals).
     err_bind (calculate_transaction_bonuses daily_totals transactions_count) (\<lambda>(bonuses, details).
       Inr (bonuses, details, daily_totals, transactions_count)))))"

section \<open>The aggregator in the words of the specification\<close>













definition example_cols :: "(pystr, nat) dict" where
  "example_cols = [(COL_INVOICE, 0), (COL_EMPLOYEE, 1), (COL_DATE, 2), (COL_UNIT_PRICE, 3),
                   (QUANTITY_COL_NAME, 4)]"

text \<open>
  The sheet of the end-to-end example: a title row, the header row, and the three line items
  of employee "A" on 15 March 2024, the day written in three ways (day/month/year with a
  time, year-month-day, and a native date-time).
\<close>

definition example_sheet :: sheet where
  "example_sheet =
     [[CNone, CStr [0x52, 0x65, 0x70, 0x6F, 0x72, 0x74]],
      [CStr COL_INVOICE, CStr COL_EMPLOYEE, CStr COL_DATE, CStr COL_UNIT_PRICE,
       CStr QUANTITY_COL_NAME],
      [CInt 1, CStr [0x41],
       CStr [0x31, 0x35, 0x2F, 0x30, 0x33, 0x2F, 0x32, 0x30, 0x32, 0x34, 0x20, 0x31, 0x30, 0x3A,
             0x33, 0x30],
       CInt 100, CInt 2],
      [CInt 1, CStr [0x41], CStr [0x32, 0x30, 0x32, 0x34, 0x2D, 0x30, 0x33, 0x2D, 0x31, 0x35],
       CInt 50, CInt 1],
      [CInt 2, CStr [0x41], CDateTime (DateTime (Date 2024 3 15) 14 5 0 0), CInt 800, CInt 1]]"

section \<open>The daily average and its tier in the words of the specification\<close>






section \<open>Invariants of the engine's state\<close>

text \<open>
  The two dictionaries of the engine list the same employees in the same order, and an
  employee's total is the sum of the entries of that employee's breakdown.
\<close>

definition bonus_inv :: "'e bstate \<Rightarrow> bool" where
  "bonus_inv st \<longleftrightarrow>
     map fst (fst st) = map fst (snd st) \<and>
     (\<forall>emp. dict_get 0 (fst st) emp = sum_list (map snd (dict_get [] (snd st) emp)))"

text \<open>Every breakdown holds each category at most once.\<close>

definition details_inv :: "'e bstate \<Rightarrow> bool" where
  "details_inv st \<longleftrightarrow> (\<forall>e. distinct (map fst (dict_get [] (snd st) e)))"


section \<open>Dictionaries\<close>

lemma map_of_dict_set: "map_of (dict_set k v d) = (map_of d)(k \<mapsto> v)"
  by (induction d) auto

lemma dict_get_dict_set:
  "dict_get dflt (dict_set k v d) k' = (if k' = k then v else dict_get dflt d k')"
  by (simp add: dict_get_def map_of_dict_set)

lemma keys_dict_set: "fst ` set (dict_set k v d) = insert k (fst ` set d)"
  by (induction d) auto

lemma map_fst_dict_set:
  "map fst (dict_set k v d) = (if k \<in> fst ` set d then map fst d else map fst d @ [k])"
  by (induction d) auto

lemma distinct_dict_set: "distinct (map fst d) \<Longrightarrow> distinct (map fst (dict_set k v d))"
  by (simp add: map_fst_dict_set)

lemma sum_values_dict_set:
  "sum_list (map snd (dict_set k (dict_get 0 d k + a) d)) = sum_list (map snd d) + (a::real)"
  by (induction d) (auto simp: dict_get_def)

lemma dict_get_absent: "k \<notin> fst ` set d \<Longrightarrow> dict_get dflt d k = dflt"
  using map_of_eq_None_iff[of d k] by (simp add: dict_get_def)

section \<open>The engine keeps its invariants and always returns\<close>

lemma bonus_inv_add:
  assumes "bonus_inv st"
  shows "bonus_inv (bonuses_add emp amt (fst st), details_add emp cat amt (snd st))"
proof -
  from assms have keys: "map fst (fst st) = map fst (snd st)"
    and sums: "\<And>e. dict_get 0 (fst st) e = sum_list (map snd (dict_get [] (snd st) e))"
    by (simp_all add: bonus_inv_def)
  have "set (map fst (fst st)) = set (map fst (snd st))"
    using keys by simp
  then have mem: "emp \<in> fst ` set (fst st) \<longleftrightarrow> emp \<in> fst ` set (snd st)"
    by simp
  have "map fst (bonuses_add emp amt (fst st)) = map fst (details_add emp cat amt (snd st))"
    using keys mem by (simp add: bonuses_add_def details_add_def Let_def map_fst_dict_set)
  moreover have "dict_get 0 (bonuses_add emp amt (fst st)) e =
      sum_list (map snd (dict_get [] (details_add emp cat amt (snd st)) e))" for e
    using sums[of e] sums[of emp]
    by (auto simp: bonuses_add_def details_add_def Let_def dict_get_dict_set sum_values_dict_set)
  ultimately show ?thesis
    by (simp add: bonus_inv_def)
qed

lemma bonus_inv_transaction_step: "bonus_inv st \<Longrightarrow> bonus_inv (transaction_step emp tot st)"
proof -
  assume inv: "bonus_inv st"
  define st1 where "st1 = (if tot > 400
      then (bonuses_add emp BONUS_OVER_400 (fst st), details_add emp Over400 BONUS_OVER_400 (snd st))
      else st)"
  have inv1: "bonus_inv st1"
    using inv bonus_inv_add[OF inv] by (simp add: st1_def)
  have "transaction_step emp tot st = (if tot > 700
      then (bonuses_add emp BONUS_OVER_700 (fst st1), details_add emp Over700 BONUS_OVER_700 (snd st1))
      else st1)"
    by (simp add: transaction_step_def st1_def Let_def)
  then show ?thesis
    using inv1 bonus_inv_add[OF inv1] by simp
qed

lemma bonus_inv_transactions_loop: "bonus_inv st \<Longrightarrow> bonus_inv (transactions_loop emp totals st)"
  by (induction totals arbitrary: st) (simp_all add: bonus_inv_transaction_step)

lemma bonus_inv_average_step: "bonus_inv st \<Longrightarrow> bonus_inv (average_step emp avg st)"
  by (simp add: average_step_def bonus_inv_add)

lemma day_average_returns: "\<exists>avg. day_average totals cnt = Inr avg"
  by (simp add: day_average_def py_truediv_def)

lemma day_step_returns:
  "\<exists>avg. day_step tc emp date totals st = Inr (average_step emp avg (transactions_loop emp totals st))"
  using day_average_returns[of totals "count_of tc emp date"]
  by (auto simp: day_step_def)

lemma bonus_inv_day_step:
  "bonus_inv st \<Longrightarrow> day_step tc emp date totals st = Inr st' \<Longrightarrow> bonus_inv st'"
  using day_step_returns[of tc emp date totals st]
  by (auto simp: bonus_inv_average_step bonus_inv_transactions_loop)

lemma bonus_inv_days_loop:
  "bonus_inv st \<Longrightarrow> days_loop tc emp daily st = Inr st' \<Longrightarrow> bonus_inv st'"
proof (induction daily arbitrary: st)
  case Nil
  then show ?case by simp
next
  case (Cons p daily)
  obtain date totals where p: "p = (date, totals)" by (cases p)
  from Cons.prems(2) obtain st1 where
    s1: "day_step tc emp date totals st = Inr st1" and s2: "days_loop tc emp daily st1 = Inr st'"
    by (auto simp: p split: sum.splits)
  from bonus_inv_day_step[OF Cons.prems(1) s1] Cons.IH s2 show ?case by blast
qed

lemma bonus_inv_employees_loop:
  "bonus_inv st \<Longrightarrow> employees_loop tc sd st = Inr st' \<Longrightarrow> bonus_inv st'"
proof (induction sd arbitrary: st)
  case Nil
  then show ?case by simp
next
  case (Cons p sd)
  obtain emp daily where p: "p = (emp, daily)" by (cases p)
  from Cons.prems(2) obtain st1 where
    s1: "days_loop tc emp daily st = Inr st1" and s2: "employees_loop tc sd st1 = Inr st'"
    by (auto simp: p split: sum.splits)
  from bonus_inv_days_loop[OF Cons.prems(1) s1] Cons.IH s2 show ?case by blast
qed

lemma days_loop_returns: "\<exists>st'. days_loop tc emp daily st = Inr st'"
proof (induction daily arbitrary: st)
  case Nil
  then show ?case by simp
next
  case (Cons p daily)
  obtain date totals where p: "p = (date, totals)" by (cases p)
  from day_step_returns[of tc emp date totals st] obtain st1 where
    "day_step tc emp date totals st = Inr st1" by blast
  with Cons.IH[of st1] show ?case by (simp add: p)
qed

lemma employees_loop_returns: "\<exists>st'. employees_loop tc sd st = Inr st'"
proof (induction sd arbitrary: st)
  case Nil
  then show ?case by simp
next
  case (Cons p sd)
  obtain emp daily where p: "p = (emp, daily)" by (cases p)
  from days_loop_returns[of tc emp daily st] obtain st1 where
    "days_loop tc emp daily st = Inr st1" by blast
  with Cons.IH[of st1] show ?case by (simp add: p)
qed

section \<open>Properties of the bonus engine\<close>

lemmas engine_defs =
  calculate_transaction_bonuses_def day_step_def day_average_def py_truediv_def count_of_def
  average_step_def transaction_step_def bonuses_add_def details_add_def dict_get_def Let_def
  BONUS_OVER_400_def BONUS_OVER_700_def BONUS_AVG_130_def BONUS_AVG_140_def BONUS_AVG_150_def

lemma dict_get_inner_details_add:
  "dict_get 0 (dict_get [] (details_add emp cat amt details) e) c =
     (if e = emp \<and> c = cat then dict_get 0 (dict_get [] details emp) cat + amt
      else dict_get 0 (dict_get [] details e) c)"
  by (simp add: details_add_def Let_def dict_get_dict_set)


lemma transaction_step_category:
  "dict_get 0 (dict_get [] (snd (transaction_step emp tot st)) emp) cat =
     dict_get 0 (dict_get [] (snd st) emp) cat +
       (case cat of Over400 \<Rightarrow> (if tot > 400 then BONUS_OVER_400 else 0)
                  | Over700 \<Rightarrow> (if tot > 700 then BONUS_OVER_700 else 0)
                  | AvgBonus \<Rightarrow> 0)"
  by (cases cat) (simp_all add: transaction_step_def Let_def dict_get_inner_details_add)


lemma transactions_loop_average_category:
  "dict_get 0 (dict_get [] (snd (transactions_loop emp totals st)) emp) AvgBonus =
     dict_get 0 (dict_get [] (snd st) emp) AvgBonus"
  by (induction totals arbitrary: st) (simp_all add: transaction_step_category)















text \<open>
  Claim C8 (zero-count safety). When the transaction count of an employee's day is 0, the
  average is computed as 0 without a division error, the day's step returns, and what it
  returns is the state after the per-transaction loop alone: the average category of the
  employee is the same before and after the day.
\<close>

theorem zero_count_safety:
  assumes "count_of transactions_count emp date = 0"
  shows "day_average totals (count_of transactions_count emp date) = Inr 0
       \<and> day_step transactions_count emp date totals st = Inr (transactions_loop emp totals st)
       \<and> (\<forall>st'. day_step transactions_count emp date totals st = Inr st' \<longrightarrow>
            dict_get 0 (dict_get [] (snd st') emp) AvgBonus =
            dict_get 0 (dict_get [] (snd st) emp) AvgBonus)"
proof -
  have a: "day_average totals (count_of transactions_count emp date) = Inr 0"
    using assms by (simp add: day_average_def)
  have b: "day_step transactions_count emp date totals st = Inr (transactions_loop emp totals st)"
    using a by (simp add: day_step_def average_step_def)
  from a b show ?thesis
    by (simp add: transactions_loop_average_category)
qed

theorem zero_count_safety_witness:
  "count_of [] [0x41::nat] (1::nat) = 0
   \<and> day_average [500] (count_of [] [0x41::nat] (1::nat)) = Inr 0
   \<and> day_step [] [0x41::nat] (1::nat) [500] ([], []) = Inr ([([0x41], 20)], [([0x41], [(Over400, 20)])])"
proof -
  have h: "count_of [] [0x41::nat] (1::nat) = 0"
    by (simp add: count_of_def dict_get_def)
  from zero_count_safety[OF h, of "[500]" "([], [])"] h show ?thesis
    by (simp add: engine_defs)
qed

lemma calculate_transaction_bonuses_returns:
  "\<exists>st. calculate_transaction_bonuses sales_data transactions_count = Inr st"
  unfolding calculate_transaction_bonuses_def by (rule employees_loop_returns)


lemma distinct_inner_details_add:
  assumes "\<And>e. distinct (map fst (dict_get [] details e))"
  shows "distinct (map fst (dict_get [] (details_add emp cat amt details) e))"
  using assms[of e] assms[of emp]
  by (simp add: details_add_def Let_def dict_get_dict_set distinct_dict_set)

lemma details_inv_transaction_step: "details_inv st \<Longrightarrow> details_inv (transaction_step emp tot st)"
  by (simp add: details_inv_def transaction_step_def Let_def distinct_inner_details_add)

lemma details_inv_transactions_loop:
  "details_inv st \<Longrightarrow> details_inv (transactions_loop emp totals st)"
  by (induction totals arbitrary: st) (simp_all add: details_inv_transaction_step)

lemma details_inv_average_step: "details_inv st \<Longrightarrow> details_inv (average_step emp avg st)"
  by (simp add: details_inv_def average_step_def distinct_inner_details_add)

lemma details_inv_day_step:
  "details_inv st \<Longrightarrow> day_step tc emp date totals st = Inr st' \<Longrightarrow> details_inv st'"
  using day_step_returns[of tc emp date totals st]
  by (auto simp: details_inv_average_step details_inv_transactions_loop)

lemma details_inv_days_loop:
  "details_inv st \<Longrightarrow> days_loop tc emp daily st = Inr st' \<Longrightarrow> details_inv st'"
proof (induction daily arbitrary: st)
  case Nil
  then show ?case by simp
next
  case (Cons p daily)
  obtain date totals where p: "p = (date, totals)" by (cases p)
  from Cons.prems(2) obtain st1 where
    s1: "day_step tc emp date totals st = Inr st1" and s2: "days_loop tc emp daily st1 = Inr st'"
    by (auto simp: p split: sum.splits)
  from details_inv_day_step[OF Cons.prems(1) s1] Cons.IH s2 show ?case by blast
qed

lemma details_inv_employees_loop:
  "details_inv st \<Longrightarrow> employees_loop tc sd st = Inr st' \<Longrightarrow> details_inv st'"
proof (induction sd arbitrary: st)
  case Nil
  then show ?case by simp
next
  case (Cons p sd)
  obtain emp daily where p: "p = (emp, daily)" by (cases p)
  from Cons.prems(2) obtain st1 where
    s1: "days_loop tc emp daily st = Inr st1" and s2: "employees_loop tc sd st1 = Inr st'"
    by (auto simp: p split: sum.splits)
  from details_inv_days_loop[OF Cons.prems(1) s1] Cons.IH s2 show ?case by blast
qed

lemma map_of_dict_get: "map_of d k = Some v \<Longrightarrow> dict_get dflt d k = v"
  by (simp add: dict_get_def)

lemma sum_values_three_categories:
  assumes "distinct (map fst det)"
  shows "sum_list (map snd det) =
    dict_get 0 det Over400 + dict_get 0 det Over700 + dict_get (0::real) det AvgBonus"
  using assms
proof (induction det)
  case Nil
  then show ?case by (simp add: dict_get_def)
next
  case (Cons p det)
  obtain c v where p: "p = (c, v)" by (cases p)
  from Cons.prems have notin: "c \<notin> fst ` set det" and dist: "distinct (map fst det)"
    by (simp_all add: p)
  have absent: "dict_get 0 det c = (0::real)"
    using notin by (rule dict_get_absent)
  have step: "dict_get 0 ((c', v) # det) k = (if k = c' then v else dict_get 0 det k)" for k c'
    by (simp add: dict_get_def)
  show ?case
    using Cons.IH[OF dist] absent by (cases c) (simp_all add: step p)
qed

text \<open>
  Claim C10 (total equals the sum of the breakdown). For every input and every employee listed
  in either dictionary the engine returns, the employee has a total and a breakdown, the
  breakdown holds each category label at most once, and the total is the sum of the
  breakdown's amounts, which is the sum of the three categories read with the default 0.
  The two source versions of the engine are the same text, so the statement covers both.
\<close>

theorem total_bonus_is_sum_of_categories:
  assumes "calculate_transaction_bonuses sales_data transactions_count = Inr (bonuses, details)"
    and "emp \<in> fst ` set bonuses \<union> fst ` set details"
  shows "\<exists>b det. map_of bonuses emp = Some b \<and> map_of details emp = Some det
           \<and> distinct (map fst det)
           \<and> b = sum_list (map snd det)
           \<and> b = dict_get 0 det Over400 + dict_get 0 det Over700 + dict_get 0 det AvgBonus"
proof -
  have start: "bonus_inv (([], []) :: 'a bstate)" "details_inv (([], []) :: 'a bstate)"
    by (simp_all add: bonus_inv_def details_inv_def dict_get_def)
  from assms(1) have run: "employees_loop transactions_count sales_data ([], []) = Inr (bonuses, details)"
    by (simp add: calculate_transaction_bonuses_def)
  from bonus_inv_employees_loop[OF start(1) run]
  have keys: "map fst bonuses = map fst details"
    and sums: "\<And>e. dict_get 0 bonuses e = sum_list (map snd (dict_get [] details e))"
    by (simp_all add: bonus_inv_def)
  from details_inv_employees_loop[OF start(2) run]
  have dist: "\<And>e. distinct (map fst (dict_get [] details e))"
    by (simp add: details_inv_def)
  have "set (map fst bonuses) = set (map fst details)"
    using keys by simp
  with assms(2) have "emp \<in> fst ` set bonuses" and "emp \<in> fst ` set details"
    by auto
  then obtain b det where b: "map_of bonuses emp = Some b" and det: "map_of details emp = Some det"
    by (metis map_of_eq_None_iff not_None_eq)
  have gb: "dict_get 0 bonuses emp = b" and gd: "dict_get [] details emp = det"
    using b det by (simp_all add: map_of_dict_get)
  have d1: "distinct (map fst det)"
    using dist[of emp] gd by simp
  have s1: "b = sum_list (map snd det)"
    using sums[of emp] gb gd by simp
  from b det d1 s1 sum_values_three_categories[OF d1] show ?thesis
    by simp
qed

theorem total_bonus_is_sum_of_categories_witness:
  "calculate_transaction_bonuses [([0x41::nat], [(1::nat, [750, 100])])] [([0x41], [(1, 2)])] =
     Inr ([([0x41], 65)], [([0x41], [(Over400, 20), (Over700, 10), (AvgBonus, 35)])])
   \<and> [0x41] \<in> fst ` set [([0x41::nat], 65::real)]
   \<and> (65::real) = sum_list (map snd [(Over400, 20), (Over700, 10), (AvgBonus, 35)])"
proof -
  have run: "calculate_transaction_bonuses [([0x41::nat], [(1::nat, [750, 100])])] [([0x41], [(1, 2)])] =
     Inr ([([0x41], 65)], [([0x41], [(Over400, 20), (Over700, 10), (AvgBonus, 35)])])"
    by (simp add: engine_defs)
  have mem: "[0x41] \<in> fst ` set [([0x41::nat], 65::real)]
      \<union> fst ` set [([0x41::nat], [(Over400, 20::real), (Over700, 10), (AvgBonus, 35)])]"
    by simp
  from total_bonus_is_sum_of_categories[OF run mem] run show ?thesis
    by simp
qed

section \<open>Properties of the header locator\<close>

lemma build_col_idx_step:
  "build_col_idx f i (v # row) acc =
     build_col_idx f (Suc i) row
       (case cell_label f v of None \<Rightarrow> acc | Some key \<Rightarrow> dict_set key i acc)"
  by (simp add: cell_label_def Let_def)

lemma row_labels_Nil: "row_labels f [] = {}"
  by (simp add: row_labels_def List.map_filter_simps)

lemma row_labels_Cons:
  "row_labels f (v # row) =
     (case cell_label f v of None \<Rightarrow> row_labels f row | Some l \<Rightarrow> insert l (row_labels f row))"
  by (simp add: row_labels_def List.map_filter_simps split: option.splits)

lemma row_labels_mem: "l \<in> row_labels f row \<longleftrightarrow> (\<exists>v\<in>set row. cell_label f v = Some l)"
  by (induction row) (auto simp: row_labels_Nil row_labels_Cons split: option.splits)

lemma row_labels_iff:
  "l \<in> row_labels f row \<longleftrightarrow> (\<exists>m<length row. cell_label f (row ! m) = Some l)"
  unfolding row_labels_mem by (metis in_set_conv_nth)

lemma keys_build_col_idx:
  "fst ` set (build_col_idx f i row acc) = fst ` set acc \<union> row_labels f row"
proof (induction row arbitrary: i acc)
  case Nil
  then show ?case by (simp add: row_labels_Nil)
next
  case (Cons v row)
  show ?case
    unfolding build_col_idx_step Cons.IH
    by (cases "cell_label f v") (auto simp: row_labels_Cons keys_dict_set)
qed

lemma map_of_build_col_idx:
  "map_of (build_col_idx f i row acc) l = Some n \<longleftrightarrow>
     (i \<le> n \<and> n - i < length row \<and> cell_label f (row ! (n - i)) = Some l
        \<and> (\<forall>m. n - i < m \<and> m < length row \<longrightarrow> cell_label f (row ! m) \<noteq> Some l))
     \<or> (map_of acc l = Some n \<and> (\<forall>m<length row. cell_label f (row ! m) \<noteq> Some l))"
proof (induction row arbitrary: i acc)
  case Nil
  then show ?case by simp
next
  case (Cons v row)
  define acc' where "acc' = (case cell_label f v of None \<Rightarrow> acc | Some key \<Rightarrow> dict_set key i acc)"
  have acc': "map_of acc' l = Some k \<longleftrightarrow>
      (cell_label f v = Some l \<and> k = i) \<or> (cell_label f v \<noteq> Some l \<and> map_of acc l = Some k)" for k
    by (cases "cell_label f v") (auto simp: acc'_def map_of_dict_set)
  have all_Cons: "(\<forall>m<length (v # row). cell_label f ((v # row) ! m) \<noteq> Some l) \<longleftrightarrow>
      cell_label f v \<noteq> Some l \<and> (\<forall>m<length row. cell_label f (row ! m) \<noteq> Some l)"
    by (auto simp: nth_Cons' less_Suc_eq_0_disj)
  have later0: "(\<forall>m. 0 < m \<and> m < length (v # row) \<longrightarrow> cell_label f ((v # row) ! m) \<noteq> Some l) \<longleftrightarrow>
      (\<forall>m<length row. cell_label f (row ! m) \<noteq> Some l)"
    by (auto simp: nth_Cons' less_Suc_eq_0_disj)
  have laterS: "(\<forall>m. Suc j < m \<and> m < length (v # row) \<longrightarrow> cell_label f ((v # row) ! m) \<noteq> Some l) \<longleftrightarrow>
      (\<forall>m. j < m \<and> m < length row \<longrightarrow> cell_label f (row ! m) \<noteq> Some l)" for j
  proof
    assume a: "\<forall>m. Suc j < m \<and> m < length (v # row) \<longrightarrow> cell_label f ((v # row) ! m) \<noteq> Some l"
    show "\<forall>m. j < m \<and> m < length row \<longrightarrow> cell_label f (row ! m) \<noteq> Some l"
    proof (intro allI impI)
      fix m assume "j < m \<and> m < length row"
      with a[rule_format, of "Suc m"] show "cell_label f (row ! m) \<noteq> Some l" by simp
    qed
  next
    assume a: "\<forall>m. j < m \<and> m < length row \<longrightarrow> cell_label f (row ! m) \<noteq> Some l"
    show "\<forall>m. Suc j < m \<and> m < length (v # row) \<longrightarrow> cell_label f ((v # row) ! m) \<noteq> Some l"
    proof (intro allI impI)
      fix m assume m: "Suc j < m \<and> m < length (v # row)"
      then obtain m' where "m = Suc m'" by (cases m) auto
      with m a[rule_format, of m'] show "cell_label f ((v # row) ! m) \<noteq> Some l" by simp
    qed
  qed
  have "map_of (build_col_idx f i (v # row) acc) l = Some n \<longleftrightarrow>
      map_of (build_col_idx f (Suc i) row acc') l = Some n"
    by (simp only: build_col_idx_step acc'_def)
  also have "\<dots> \<longleftrightarrow>
      (Suc i \<le> n \<and> n - Suc i < length row \<and> cell_label f (row ! (n - Suc i)) = Some l
        \<and> (\<forall>m. n - Suc i < m \<and> m < length row \<longrightarrow> cell_label f (row ! m) \<noteq> Some l))
     \<or> (map_of acc' l = Some n \<and> (\<forall>m<length row. cell_label f (row ! m) \<noteq> Some l))"
    by (rule Cons.IH)
  also have "\<dots> \<longleftrightarrow>
     (i \<le> n \<and> n - i < length (v # row) \<and> cell_label f ((v # row) ! (n - i)) = Some l
        \<and> (\<forall>m. n - i < m \<and> m < length (v # row) \<longrightarrow> cell_label f ((v # row) ! m) \<noteq> Some l))
     \<or> (map_of acc l = Some n \<and> (\<forall>m<length (v # row). cell_label f ((v # row) ! m) \<noteq> Some l))"
  proof (cases "n \<le> i")
    case True
    show ?thesis
    proof (cases "n = i")
      case True
      have "cell_label f ((v # row) ! 0) = cell_label f v"
        by simp
      then show ?thesis
        unfolding True diff_self_eq_0 later0 all_Cons acc'
        by (auto simp del: nth_Cons_0)
    next
      case False
      with True have "n < i" by simp
      then show ?thesis
        unfolding all_Cons acc' by auto
    qed
  next
    case False
    then obtain j where j: "n - i = Suc j" "n - Suc i = j" "Suc i \<le> n" "i \<le> n"
      by (metis Suc_diff_Suc Suc_leI diff_Suc_eq_diff_pred not_le_imp_less diff_Suc_1 less_imp_le)
    have ni: "n \<noteq> i" using False by simp
    show ?thesis
      unfolding j acc' all_Cons laterS
      using ni j by auto
  qed
  finally show ?case .
qed

lemma keys_build_col_idx_0: "fst ` set (build_col_idx f 0 row []) = row_labels f row"
  by (simp add: keys_build_col_idx)

lemma header_test_iff:
  assumes "required_cols \<noteq> []"
  shows "(build_col_idx f 0 row [] \<noteq> []
            \<and> list_all (\<lambda>col. col \<in> set (map fst (build_col_idx f 0 row []))) required_cols)
         \<longleftrightarrow> set required_cols \<subseteq> row_labels f row"
proof -
  have keys: "set (map fst (build_col_idx f 0 row [])) = row_labels f row"
    using keys_build_col_idx_0[of f row] by simp
  have "set required_cols \<subseteq> row_labels f row \<Longrightarrow> build_col_idx f 0 row [] \<noteq> []"
  proof
    assume sub: "set required_cols \<subseteq> row_labels f row" and emp: "build_col_idx f 0 row [] = []"
    from assms obtain c where "c \<in> set required_cols" by (cases required_cols) auto
    with sub have "c \<in> row_labels f row" by blast
    with keys emp show False by simp
  qed
  then show ?thesis
    unfolding keys by (auto simp: list_all_iff)
qed

lemma header_test_imp:
  "build_col_idx f 0 row [] \<noteq> []
     \<and> list_all (\<lambda>col. col \<in> set (map fst (build_col_idx f 0 row []))) required_cols
   \<Longrightarrow> set required_cols \<subseteq> row_labels f row"
  using keys_build_col_idx_0[of f row] by (auto simp: list_all_iff)

lemma header_scan_found:
  assumes "required_cols \<noteq> []" and "k < length sheet"
    and "set required_cols \<subseteq> row_labels f (sheet ! k)"
    and "\<forall>j<k. \<not> set required_cols \<subseteq> row_labels f (sheet ! j)"
  shows "header_scan f r sheet required_cols = Inr (r + k, build_col_idx f 0 (sheet ! k) [])"
  using assms(2-4)
proof (induction sheet arbitrary: r k)
  case Nil
  then show ?case by simp
next
  case (Cons row rows)
  show ?case
  proof (cases k)
    case 0
    with Cons.prems(2) have "set required_cols \<subseteq> row_labels f row" by simp
    with header_test_iff[OF assms(1), of f row]
    have "build_col_idx f 0 row [] \<noteq> []
        \<and> list_all (\<lambda>col. col \<in> set (map fst (build_col_idx f 0 row []))) required_cols"
      by blast
    then have "header_scan f r (row # rows) required_cols = Inr (r, build_col_idx f 0 row [])"
      by (simp only: header_scan.simps Let_def simp_thms if_True)
    then show ?thesis
      using 0 by simp
  next
    case (Suc k')
    from Cons.prems(3) Suc have "\<not> set required_cols \<subseteq> row_labels f row"
      by (metis nth_Cons_0 zero_less_Suc)
    with header_test_iff[OF assms(1), of f row]
    have "\<not> (build_col_idx f 0 row [] \<noteq> []
        \<and> list_all (\<lambda>col. col \<in> set (map fst (build_col_idx f 0 row []))) required_cols)"
      by blast
    then have skip: "header_scan f r (row # rows) required_cols =
        header_scan f (Suc r) rows required_cols"
      by (simp only: header_scan.simps Let_def simp_thms if_False)
    have k': "k' < length rows" using Cons.prems(1) Suc by simp
    have here: "set required_cols \<subseteq> row_labels f (rows ! k')"
      using Cons.prems(2) Suc by simp
    have before: "\<forall>j<k'. \<not> set required_cols \<subseteq> row_labels f (rows ! j)"
    proof (intro allI impI)
      fix j assume "j < k'"
      with Cons.prems(3)[rule_format, of "Suc j"] Suc
      show "\<not> set required_cols \<subseteq> row_labels f (rows ! j)" by simp
    qed
    from Cons.IH[OF k' here before, of "Suc r"] skip Suc show ?thesis by simp
  qed
qed

lemma header_scan_absent:
  assumes "\<forall>row\<in>set sheet. \<not> set required_cols \<subseteq> row_labels f row"
  shows "header_scan f r sheet required_cols = Inl (KeyError HEADER_NOT_FOUND)"
  using assms
proof (induction sheet arbitrary: r)
  case Nil
  then show ?case by simp
next
  case (Cons row rows)
  from Cons.prems have "\<not> set required_cols \<subseteq> row_labels f row" by simp
  with header_test_imp[of f row required_cols]
  have "\<not> (build_col_idx f 0 row [] \<noteq> []
     \<and> list_all (\<lambda>col. col \<in> set (map fst (build_col_idx f 0 row []))) required_cols)"
    by blast
  then have "header_scan f r (row # rows) required_cols = header_scan f (Suc r) rows required_cols"
    by (simp only: header_scan.simps Let_def simp_thms if_False)
  with Cons show ?case by simp
qed

text \<open>
  Claim C3 (header search). Rows are numbered from 1, as the code numbers them. Let the
  required labels be non-empty and let row \<open>k\<close> be the first row whose labels (the non-empty,
  whitespace-trimmed values of its cells) include every required label. Then the locator
  returns \<open>k\<close> with a column map whose keys are exactly the labels of row \<open>k\<close> and which
  sends a label to a column index \<open>n\<close> (counted from 0) exactly when cell \<open>n\<close> of the row
  carries the label and no later cell of the row does: the last occurrence wins.
\<close>

theorem header_search:
  assumes "required_cols \<noteq> []"
    and "0 < k" and "k \<le> length sheet"
    and "set required_cols \<subseteq> row_labels str_of (sheet ! (k - 1))"
    and "\<forall>j. 0 < j \<and> j < k \<longrightarrow> \<not> set required_cols \<subseteq> row_labels str_of (sheet ! (j - 1))"
  shows "\<exists>col_idx. find_header_row str_of sheet required_cols = Inr (k, col_idx)
           \<and> fst ` set col_idx = row_labels str_of (sheet ! (k - 1))
           \<and> (\<forall>l n. map_of col_idx l = Some n \<longleftrightarrow>
                 n < length (sheet ! (k - 1))
                 \<and> cell_label str_of (sheet ! (k - 1) ! n) = Some l
                 \<and> (\<forall>m. n < m \<and> m < length (sheet ! (k - 1)) \<longrightarrow>
                       cell_label str_of (sheet ! (k - 1) ! m) \<noteq> Some l))"
proof -
  have k1: "k - 1 < length sheet" using assms(2,3) by simp
  have before: "\<forall>j<k - 1. \<not> set required_cols \<subseteq> row_labels str_of (sheet ! j)"
  proof (intro allI impI)
    fix j assume "j < k - 1"
    with assms(5)[rule_format, of "Suc j"]
    show "\<not> set required_cols \<subseteq> row_labels str_of (sheet ! j)" by simp
  qed
  have "find_header_row str_of sheet required_cols =
      Inr (1 + (k - 1), build_col_idx str_of 0 (sheet ! (k - 1)) [])"
    unfolding find_header_row_def
    by (rule header_scan_found[OF assms(1) k1 assms(4) before])
  then have found: "find_header_row str_of sheet required_cols =
      Inr (k, build_col_idx str_of 0 (sheet ! (k - 1)) [])"
    using assms(2) by simp
  have last: "map_of (build_col_idx str_of 0 (sheet ! (k - 1)) []) l = Some n \<longleftrightarrow>
      n < length (sheet ! (k - 1)) \<and> cell_label str_of (sheet ! (k - 1) ! n) = Some l
      \<and> (\<forall>m. n < m \<and> m < length (sheet ! (k - 1)) \<longrightarrow>
            cell_label str_of (sheet ! (k - 1) ! m) \<noteq> Some l)" for l n
    using map_of_build_col_idx[of str_of 0 "sheet ! (k - 1)" "[]" l n] by simp
  from found keys_build_col_idx_0[of str_of "sheet ! (k - 1)"] last show ?thesis
    by blast
qed

text \<open>
  Claim C4 (header absence), as amended. When no row's labels include every required label,
  the locator returns no result: it raises the \<^verbatim>\<open>KeyError\<close> whose only argument is the
  fixed message \<open>HEADER_NOT_FOUND\<close>. The error value is the same whatever labels were
  required.
\<close>

theorem header_absence:
  assumes "\<forall>row\<in>set sheet. \<not> set required_cols \<subseteq> row_labels str_of row"
  shows "find_header_row str_of sheet required_cols = Inl (KeyError HEADER_NOT_FOUND)"
  unfolding find_header_row_def by (rule header_scan_absent[OF assms])

lemmas header_defs =
  find_header_row_def Let_def py_str_def strip_def is_space_def cell_label_def row_labels_def
  List.map_filter_simps

theorem header_search_witness:
  "[[0x61], [0x62::nat]] \<noteq> [] \<and> (0::nat) < 2
   \<and> 2 \<le> length [[CNone, CStr [0x20, 0x54]], [CStr [0x61], CStr [0x20, 0x62, 0xA0], CNone, CStr [0x61]]]
   \<and> find_header_row (\<lambda>v. [])
        [[CNone, CStr [0x20, 0x54]], [CStr [0x61], CStr [0x20, 0x62, 0xA0], CNone, CStr [0x61]]]
        [[0x61], [0x62]]
      = Inr (2, [([0x61], 3), ([0x62], 1)])"
proof -
  define sheet where
    "sheet = [[CNone, CStr [0x20, 0x54]], [CStr [0x61], CStr [0x20, 0x62, 0xA0], CNone, CStr [0x61]]]"
  define req where "req = [[0x61], [0x62::nat]]"
  have h1: "req \<noteq> []" by (simp add: req_def)
  have h2: "(0::nat) < 2" by simp
  have h3: "2 \<le> length sheet" by (simp add: sheet_def)
  have h4: "set req \<subseteq> row_labels (\<lambda>v. []) (sheet ! (2 - 1))"
    by (simp add: sheet_def req_def header_defs)
  have h5: "\<forall>j. 0 < j \<and> j < 2 \<longrightarrow> \<not> set req \<subseteq> row_labels (\<lambda>v. []) (sheet ! (j - 1))"
  proof (intro allI impI)
    fix j :: nat assume "0 < j \<and> j < 2"
    then have "j = 1" by simp
    then show "\<not> set req \<subseteq> row_labels (\<lambda>v. []) (sheet ! (j - 1))"
      by (simp add: sheet_def req_def header_defs)
  qed
  have run: "find_header_row (\<lambda>v. []) sheet req = Inr (2, [([0x61], 3), ([0x62], 1)])"
    by (simp add: sheet_def req_def header_defs)
  from header_search[OF h1 h2 h3 h4 h5] run h1 h2 h3 show ?thesis
    unfolding sheet_def req_def by simp
qed

theorem header_absence_witness:
  "find_header_row (\<lambda>v. []) [[CNone, CStr [0x20, 0x54]], [CStr [0x61], CNone]] [[0x61], [0x62]]
     = Inl (KeyError HEADER_NOT_FOUND)"
proof -
  have h: "\<forall>row\<in>set [[CNone, CStr [0x20, 0x54]], [CStr [0x61], CNone]].
      \<not> set [[0x61], [0x62]] \<subseteq> row_labels (\<lambda>v. []) row"
    by (simp add: header_defs)
  from header_absence[OF h] show ?thesis .
qed

text \<open>
  The claim as stated asks for an error that carries the required labels. Two searches of
  the same sheet for different labels raise the very same error value.
\<close>

theorem header_error_carries_no_labels:
  "find_header_row (\<lambda>v. []) [[CStr [0x78]]] [[0x61]] = Inl (KeyError HEADER_NOT_FOUND)
   \<and> find_header_row (\<lambda>v. []) [[CStr [0x78]]] [[0x62]] = Inl (KeyError HEADER_NOT_FOUND)
   \<and> set [[0x61::nat]] \<noteq> set [[0x62]]"
  by (simp add: header_defs)

section \<open>Properties of the date normalizer\<close>

lemma digit_zero_ascii: "k \<le> 9 \<Longrightarrow> digit_zero (48 + k) = Some 48"
  by (simp add: digit_zero_def DECIMAL_ZEROS_def)

lemma is_digit_ascii: "k \<le> 9 \<Longrightarrow> is_digit (48 + k)"
  by (simp add: is_digit_def digit_zero_ascii)

lemma digit_val_ascii: "k \<le> 9 \<Longrightarrow> digit_val (48 + k) = k"
  by (simp add: digit_val_def digit_zero_ascii)

lemma is_digit_numerals:
  "is_digit 48" "is_digit 49" "is_digit 50" "is_digit 51" "is_digit 52" "is_digit 53" "is_digit 54" "is_digit 55" "is_digit 56" "is_digit 57"
  using is_digit_ascii[of 0] is_digit_ascii[of 1] is_digit_ascii[of 2] is_digit_ascii[of 3]
    is_digit_ascii[of 4] is_digit_ascii[of 5] is_digit_ascii[of 6] is_digit_ascii[of 7]
    is_digit_ascii[of 8] is_digit_ascii[of 9]
  by simp_all

lemma digit_val_numerals:
  "digit_val 48 = 0" "digit_val 49 = 1" "digit_val 50 = 2" "digit_val 51 = 3" "digit_val 52 = 4" "digit_val 53 = 5" "digit_val 54 = 6" "digit_val 55 = 7" "digit_val 56 = 8" "digit_val 57 = 9"
  using digit_val_ascii[of 0] digit_val_ascii[of 1] digit_val_ascii[of 2] digit_val_ascii[of 3]
    digit_val_ascii[of 4] digit_val_ascii[of 5] digit_val_ascii[of 6] digit_val_ascii[of 7]
    digit_val_ascii[of 8] digit_val_ascii[of 9]
  by simp_all

lemma decimal_zeros_bounds: "\<forall>z\<in>set DECIMAL_ZEROS. z = 48 \<or> 1632 \<le> z"
  by (simp add: DECIMAL_ZEROS_def)

lemma not_digit_between:
  assumes "c < 48 \<or> (58 \<le> c \<and> c < 1632)"
  shows "\<not> is_digit c"
proof -
  have "\<not> (z \<le> c \<and> c < z + 10)" if "z \<in> set DECIMAL_ZEROS" for z
    using decimal_zeros_bounds that assms by fastforce
  then have "digit_zero c = None"
    unfolding digit_zero_def find_None_iff by blast
  then show ?thesis
    by (simp add: is_digit_def)
qed

lemmas digit_simps =
  is_digit_ascii digit_val_ascii is_digit_numerals digit_val_numerals not_digit_between

lemma two_digits_split:
  "two_digits n = [48 + n div 10, 48 + n mod 10]"
  by (simp add: two_digits_def)

lemma day_field_digits:
  assumes "q \<le> 3" "r < 10" "q = 0 \<longrightarrow> 1 \<le> r" "q = 3 \<longrightarrow> r \<le> 1"
  shows "day_field [48 + q, 48 + r] = Some (10 * q + r)"
proof -
  consider "q = 0" | "q = 1" | "q = 2" | "q = 3" using assms(1) by linarith
  then show ?thesis
  proof cases
    case 1
    with assms show ?thesis by (simp add: digit_simps)
  next
    case 2
    with assms show ?thesis by (simp add: digit_simps)
  next
    case 3
    with assms show ?thesis by (simp add: digit_simps)
  next
    case 4
    with assms have "r = 0 \<or> r = 1" by linarith
    with 4 show ?thesis by (auto simp: digit_simps)
  qed
qed

lemma day_field_two_digits:
  assumes "1 \<le> d" "d \<le> 31"
  shows "day_field (two_digits d) = Some d"
proof -
  define q r where "q = d div 10" and "r = d mod 10"
  have d: "d = 10 * q + r" and r: "r < 10"
    by (simp_all add: q_def r_def)
  have q: "q \<le> 3" using assms(2) d by linarith
  have r0: "q = 0 \<longrightarrow> 1 \<le> r" using assms(1) d by linarith
  have r3: "q = 3 \<longrightarrow> r \<le> 1" using assms(2) d by linarith
  from day_field_digits[OF q r r0 r3] show ?thesis
    unfolding two_digits_split q_def[symmetric] r_def[symmetric] d[symmetric] .
qed

lemma month_field_digits:
  assumes "q \<le> 1" "r < 10" "q = 0 \<longrightarrow> 1 \<le> r" "q = 1 \<longrightarrow> r \<le> 2"
  shows "month_field [48 + q, 48 + r] = Some (10 * q + r)"
proof -
  consider "q = 0" | "q = 1" using assms(1) by linarith
  then show ?thesis
  proof cases
    case 1
    with assms show ?thesis by (simp add: digit_simps)
  next
    case 2
    with assms show ?thesis by (simp add: digit_simps)
  qed
qed

lemma month_field_two_digits:
  assumes "1 \<le> m" "m \<le> 12"
  shows "month_field (two_digits m) = Some m"
proof -
  define q r where "q = m div 10" and "r = m mod 10"
  have d: "m = 10 * q + r" and r: "r < 10"
    by (simp_all add: q_def r_def)
  have q: "q \<le> 1" using assms(2) d by linarith
  have r0: "q = 0 \<longrightarrow> 1 \<le> r" using assms(1) d by linarith
  have r1: "q = 1 \<longrightarrow> r \<le> 2" using assms(2) d by linarith
  from month_field_digits[OF q r r0 r1] show ?thesis
    unfolding two_digits_split q_def[symmetric] r_def[symmetric] d[symmetric] .
qed

lemma hour_field_digits:
  assumes "q \<le> 2" "r < 10" "q = 2 \<longrightarrow> r \<le> 3"
  shows "hour_field [48 + q, 48 + r] = Some (10 * q + r)"
proof -
  consider "q = 0" | "q = 1" | "q = 2" using assms(1) by linarith
  then show ?thesis
  proof cases
    case 1
    with assms show ?thesis by (simp add: digit_simps)
  next
    case 2
    with assms show ?thesis by (simp add: digit_simps)
  next
    case 3
    with assms show ?thesis by (simp add: digit_simps)
  qed
qed

lemma hour_field_two_digits:
  assumes "h < 24"
  shows "hour_field (two_digits h) = Some h"
proof -
  define q r where "q = h div 10" and "r = h mod 10"
  have d: "h = 10 * q + r" and r: "r < 10"
    by (simp_all add: q_def r_def)
  have q: "q \<le> 2" using assms d by linarith
  have r2: "q = 2 \<longrightarrow> r \<le> 3" using assms d by linarith
  from hour_field_digits[OF q r r2] show ?thesis
    unfolding two_digits_split q_def[symmetric] r_def[symmetric] d[symmetric] .
qed

lemma minute_field_two_digits:
  assumes "mi < 60"
  shows "minute_field (two_digits mi) = Some mi"
proof -
  define q r where "q = mi div 10" and "r = mi mod 10"
  have d: "mi = 10 * q + r" and r: "r < 10"
    by (simp_all add: q_def r_def)
  have q: "q \<le> 5" using assms d by linarith
  have "minute_field [48 + q, 48 + r] = Some (10 * q + r)"
    using q r by (simp add: digit_simps)
  then show ?thesis
    unfolding two_digits_split q_def[symmetric] r_def[symmetric] d[symmetric] .
qed

lemma mod_10_le_9: "(k::nat) mod 10 \<le> 9"
proof -
  have "k mod 10 < 10" by simp
  then show ?thesis by linarith
qed

lemma four_digits_value:
  fixes y :: nat
  shows "1000 * (y div 1000) + 100 * (y div 100 mod 10) + 10 * (y div 10 mod 10) + y mod 10 = y"
proof -
  have e1: "y div 100 = y div 10 div 10" and e2: "y div 1000 = y div 100 div 10"
    by (simp_all add: div_mult2_eq[symmetric])
  have s1: "y = 10 * (y div 10) + y mod 10" by simp
  have s2: "y div 10 = 10 * (y div 100) + y div 10 mod 10" unfolding e1 by simp
  have s3: "y div 100 = 10 * (y div 1000) + y div 100 mod 10" unfolding e2 by simp
  from s1 s2 s3 show ?thesis by linarith
qed

lemma year_then_four_digits:
  assumes "y \<le> 9999"
  shows "year_then (four_digits y @ rest) = Some (y, rest)"
proof -
  have a: "y div 1000 \<le> 9" using assms by simp
  have "year_then (four_digits y @ rest) =
      Some (1000 * (y div 1000) + 100 * (y div 100 mod 10) + 10 * (y div 10 mod 10) + y mod 10, rest)"
    using a by (simp add: year_then_def four_digits_def digit_simps mod_10_le_9)
  then show ?thesis
    by (simp only: four_digits_value)
qed

lemma field_before_two_digits:
  assumes "sep < 48"
  shows "field_before sep (two_digits n @ sep # rest) = Some (two_digits n, rest)"
  using assms by (simp add: field_before_def two_digits_def)

lemma field_before_two_digits_colon:
  assumes "n < 100"
  shows "field_before 58 (two_digits n @ 58 # rest) = Some (two_digits n, rest)"
proof -
  have "n div 10 \<le> 9" using assms by simp
  moreover have "n mod 10 \<le> 9" by (rule mod_10_le_9)
  ultimately have "48 + n div 10 \<noteq> 58" "48 + n mod 10 \<noteq> 58" by linarith+
  then show ?thesis
    by (simp add: field_before_def two_digits_def)
qed

lemma days_in_month_le: "days_in_month y m \<le> 31"
  by (simp add: days_in_month_def)

lemma valid_date_bounds:
  assumes "valid_date y m d"
  shows "y \<le> 9999" "1 \<le> m" "m \<le> 12" "1 \<le> d" "d \<le> 31"
  using assms days_in_month_le[of y m] by (simp_all add: valid_date_def)

lemma strptime_text_dmy:
  assumes "valid_date y m d"
  shows "strptime (text_dmy (Date y m d)) DMY = Some (DateTime (Date y m d) 0 0 0 0)"
proof -
  note b = valid_date_bounds[OF assms]
  have "text_dmy (Date y m d) = two_digits d @ 47 # (two_digits m @ 47 # (four_digits y @ []))"
    by (simp add: text_dmy_def)
  then show ?thesis
    using assms
    by (simp add: field_before_two_digits day_field_two_digits[OF b(4,5)]
        month_field_two_digits[OF b(2,3)] year_then_four_digits[OF b(1), of "[]", simplified]
        make_datetime_def)
qed

lemma strptime_text_dmy_hm:
  assumes "valid_date y m d" "h < 24" "mi < 60"
  shows "strptime (text_dmy_hm (Date y m d) h mi) DMY_HM = Some (DateTime (Date y m d) h mi 0 0)"
proof -
  note b = valid_date_bounds[OF assms(1)]
  have h100: "h < 100" using assms(2) by simp
  have t: "text_dmy_hm (Date y m d) h mi =
      two_digits d @ 47 # (two_digits m @ 47 # (four_digits y @ (32 # (two_digits h @ 58 # two_digits mi))))"
    by (simp add: text_dmy_hm_def text_dmy_def)
  have sp: "is_space 32" by (simp add: is_space_def)
  have nsp: "dropWhile is_space (two_digits h @ 58 # two_digits mi) = two_digits h @ 58 # two_digits mi"
  proof -
    have "h div 10 \<le> 9" using h100 by simp
    then have "\<not> is_space (48 + h div 10)"
      by (auto simp: is_space_def)
    then show ?thesis
      by (simp add: two_digits_def)
  qed
  show ?thesis
    unfolding t using assms
    by (simp add: field_before_two_digits day_field_two_digits[OF b(4,5)]
        month_field_two_digits[OF b(2,3)] year_then_four_digits[OF b(1)] sp nsp
        field_before_two_digits_colon[OF h100] hour_field_two_digits minute_field_two_digits
        make_datetime_def)
qed

lemma strptime_text_ymd:
  assumes "valid_date y m d"
  shows "strptime (text_ymd (Date y m d)) YMD = Some (DateTime (Date y m d) 0 0 0 0)"
proof -
  note b = valid_date_bounds[OF assms]
  have t: "text_ymd (Date y m d) = four_digits y @ (45 # (two_digits m @ 45 # two_digits d))"
    by (simp add: text_ymd_def)
  show ?thesis
    unfolding t using assms
    by (simp add: field_before_two_digits day_field_two_digits[OF b(4,5)]
        month_field_two_digits[OF b(2,3)] year_then_four_digits[OF b(1)] make_datetime_def)
qed

lemma strptime_text_dmy_not_hm: "strptime (text_dmy (Date y m d)) DMY_HM = None"
proof (cases "year_then (four_digits y @ [])")
  case None
  then show ?thesis
    by (simp add: text_dmy_def field_before_two_digits[of 47 d "two_digits m @ 47 # four_digits y", simplified]
        field_before_two_digits[of 47 m "four_digits y", simplified] split: Option.bind_splits)
next
  case (Some p)
  have "snd p = []" using Some
    by (auto simp: year_then_def four_digits_def split: if_splits)
  then obtain y' where p: "p = (y', [])" by (cases p) simp
  show ?thesis
    using Some unfolding p
    by (simp add: text_dmy_def field_before_two_digits[of 47 d "two_digits m @ 47 # four_digits y", simplified]
        field_before_two_digits[of 47 m "four_digits y", simplified] split: Option.bind_splits)
qed

lemma strptime_text_dmy_not_ymd: "strptime (text_dmy (Date y m d)) YMD = None"
  by (simp add: text_dmy_def two_digits_def year_then_def digit_simps)

lemma strptime_text_ymd_not_hm:
  assumes "y \<le> 9999"
  shows "strptime (text_ymd (Date y m d)) DMY_HM = None"
proof -
  have a: "y div 1000 \<le> 9" using assms by simp
  have "field_before 47 (text_ymd (Date y m d)) = None"
    by (simp add: field_before_def text_ymd_def four_digits_def two_digits_def)
  then show ?thesis by simp
qed

lemma parse_date_priority:
  "parse_date s =
     (case strptime s DMY_HM of
        Some t \<Rightarrow> Some (date_of t)
      | None \<Rightarrow>
        (case strptime s YMD of
           Some t \<Rightarrow> Some (date_of t)
         | None \<Rightarrow>
           (case strptime s DMY of
              Some t \<Rightarrow> Some (date_of t)
            | None \<Rightarrow> None)))"
  by (simp add: parse_date_def split: option.splits)

lemma parse_date_text_ymd:
  assumes "valid_date y m d"
  shows "parse_date (text_ymd (Date y m d)) = Some (Date y m d)"
  unfolding parse_date_priority
  by (simp only: strptime_text_ymd_not_hm[OF valid_date_bounds(1)[OF assms]]
      strptime_text_ymd[OF assms] option.case pydatetime.sel)

lemma parse_date_text_dmy:
  assumes "valid_date y m d"
  shows "parse_date (text_dmy (Date y m d)) = Some (Date y m d)"
  unfolding parse_date_priority
  by (simp only: strptime_text_dmy_not_hm strptime_text_dmy_not_ymd
      strptime_text_dmy[OF assms] option.case pydatetime.sel)

lemma parse_date_text_dmy_hm:
  assumes "valid_date y m d" "h < 24" "mi < 60"
  shows "parse_date (text_dmy_hm (Date y m d) h mi) = Some (Date y m d)"
  unfolding parse_date_priority
  by (simp only: strptime_text_dmy_hm[OF assms] option.case pydatetime.sel)

lemma normalize_date_numeric:
  assumes "num_of c = Some x"
  shows "normalize_date fe c = err_bind (fe x) (\<lambda>d. Inr (Some d))"
  using assms by (cases c) (simp_all add: normalize_date_def)

lemma normalize_date_non_numeric:
  assumes "num_of c = None"
  shows "\<exists>r. normalize_date fe c = Inr r"
  using assms by (cases c) (simp_all add: normalize_date_def)

text \<open>
  The rules of the normalizer on the cells it handles as the specification says. They apply
  in the order of the code: a native date-time gives its date; a numeric cell goes to the spreadsheet's serial conversion, whose
  date (\<open>day0\<close>) is returned as it is; a text is tried against day/month/year hour:minute,
  then year-month-day, then day/month/year, the first format that parses giving the date.
  For a calendar date the text in each of the three formats parses back to exactly that
  date. A text that none of the formats parses, an empty cell, a time and a duration give the
  decode failure \<open>None\<close>, and no cell that is not numeric makes the normalizer raise.
\<close>

theorem date_normalization:
  "normalize_date fe (CDateTime dt) = Inr (Some (date_of dt))
   \<and> (num_of c = Some x \<longrightarrow> normalize_date fe c = err_bind (fe x) (\<lambda>d. Inr (Some d)))
   \<and> (num_of c = Some x \<and> fe x = Inr day0 \<longrightarrow> normalize_date fe c = Inr (Some day0))
   \<and> normalize_date fe (CStr s) = Inr (parse_date s)
   \<and> parse_date s =
        (case strptime s DMY_HM of
           Some t \<Rightarrow> Some (date_of t)
         | None \<Rightarrow>
           (case strptime s YMD of
              Some t \<Rightarrow> Some (date_of t)
            | None \<Rightarrow>
              (case strptime s DMY of
                 Some t \<Rightarrow> Some (date_of t)
               | None \<Rightarrow> None)))
   \<and> (valid_date y m d \<and> h < 24 \<and> mi < 60 \<longrightarrow>
        parse_date (text_dmy_hm (Date y m d) h mi) = Some (Date y m d)
        \<and> parse_date (text_ymd (Date y m d)) = Some (Date y m d)
        \<and> parse_date (text_dmy (Date y m d)) = Some (Date y m d))
   \<and> (strptime u DMY_HM = None \<and> strptime u YMD = None \<and> strptime u DMY = None \<longrightarrow>
        normalize_date fe (CStr u) = Inr None)
   \<and> normalize_date fe CNone = Inr None
   \<and> normalize_date fe (CTime tm) = Inr None
   \<and> normalize_date fe (CTimedelta td) = Inr None
   \<and> (num_of c' = None \<longrightarrow> (\<exists>r. normalize_date fe c' = Inr r))"
proof -
  have a: "normalize_date fe (CDateTime dt) = Inr (Some (date_of dt))"
    by (simp add: normalize_date_def)
  have b: "num_of c = Some x \<longrightarrow> normalize_date fe c = err_bind (fe x) (\<lambda>d. Inr (Some d))"
    by (simp add: normalize_date_numeric)
  have b': "num_of c = Some x \<and> fe x = Inr day0 \<longrightarrow> normalize_date fe c = Inr (Some day0)"
    by (auto simp: normalize_date_numeric err_bind_def)
  have c: "normalize_date fe (CStr s) = Inr (parse_date s)"
    by (simp add: normalize_date_def)
  have e: "valid_date y m d \<and> h < 24 \<and> mi < 60 \<longrightarrow>
        parse_date (text_dmy_hm (Date y m d) h mi) = Some (Date y m d)
        \<and> parse_date (text_ymd (Date y m d)) = Some (Date y m d)
        \<and> parse_date (text_dmy (Date y m d)) = Some (Date y m d)"
    by (simp add: parse_date_text_dmy_hm parse_date_text_ymd parse_date_text_dmy)
  have f: "strptime u DMY_HM = None \<and> strptime u YMD = None \<and> strptime u DMY = None \<longrightarrow>
        normalize_date fe (CStr u) = Inr None"
    by (simp add: normalize_date_def parse_date_def)
  have g: "normalize_date fe CNone = Inr None" "normalize_date fe (CTime tm) = Inr None"
    "normalize_date fe (CTimedelta td) = Inr None"
    by (simp_all add: normalize_date_def)
  have i: "num_of c' = None \<longrightarrow> (\<exists>r. normalize_date fe c' = Inr r)"
    by (simp add: normalize_date_non_numeric)
  from a b b' c parse_date_priority[of s] e f g i show ?thesis
    by (intro conjI)
qed

theorem date_normalization_witness:
  "num_of (CInt 45366) = Some 45366
   \<and> (if (45366::real) = 45366 then Inr (Date 2024 3 15) else Inl LibraryError) = (Inr (Date 2024 3 15) :: pyerror + pydate)
   \<and> valid_date 2024 3 15 \<and> (10::nat) < 24 \<and> (30::nat) < 60
   \<and> strptime [0x61, 0x62, 0x63] DMY_HM = None \<and> strptime [0x61, 0x62, 0x63] YMD = None
   \<and> strptime [0x61, 0x62, 0x63] DMY = None
   \<and> num_of (CStr [0x61, 0x62, 0x63]) = None
   \<and> normalize_date (\<lambda>x. if x = 45366 then Inr (Date 2024 3 15) else Inl LibraryError) (CInt 45366)
        = Inr (Some (Date 2024 3 15))
   \<and> parse_date [0x31, 0x35, 0x2F, 0x30, 0x33, 0x2F, 0x32, 0x30, 0x32, 0x34,
                  0x20, 0x31, 0x30, 0x3A, 0x33, 0x30] = Some (Date 2024 3 15)
   \<and> parse_date [0x32, 0x30, 0x32, 0x34, 0x2D, 0x30, 0x33, 0x2D, 0x31, 0x35] = Some (Date 2024 3 15)
   \<and> parse_date [0x31, 0x35, 0x2F, 0x30, 0x33, 0x2F, 0x32, 0x30, 0x32, 0x34] = Some (Date 2024 3 15)
   \<and> normalize_date (\<lambda>x. if x = 45366 then Inr (Date 2024 3 15) else Inl LibraryError)
        (CStr [0x61, 0x62, 0x63]) = Inr None"
proof -
  have v: "valid_date 2024 3 15"
    by (simp add: valid_date_def days_in_month_def)
  have n: "strptime [0x61, 0x62, 0x63] DMY_HM = None" "strptime [0x61, 0x62, 0x63] YMD = None"
    "strptime [0x61, 0x62, 0x63] DMY = None"
    by (simp_all add: field_before_def year_then_def digit_simps)
  have t1: "text_dmy_hm (Date 2024 3 15) 10 30 =
      [0x31, 0x35, 0x2F, 0x30, 0x33, 0x2F, 0x32, 0x30, 0x32, 0x34, 0x20, 0x31, 0x30, 0x3A, 0x33, 0x30]"
    and t2: "text_ymd (Date 2024 3 15) = [0x32, 0x30, 0x32, 0x34, 0x2D, 0x30, 0x33, 0x2D, 0x31, 0x35]"
    and t3: "text_dmy (Date 2024 3 15) = [0x31, 0x35, 0x2F, 0x30, 0x33, 0x2F, 0x32, 0x30, 0x32, 0x34]"
    by (simp_all add: text_dmy_hm_def text_ymd_def text_dmy_def two_digits_def four_digits_def)
  from date_normalization[where fe = "\<lambda>x. if x = 45366 then Inr (Date 2024 3 15) else Inl LibraryError"
      and c = "CInt 45366" and x = 45366 and ?day0.0 = "Date 2024 3 15"
      and y = 2024 and m = 3 and d = 15 and h = 10 and mi = 30
      and u = "[0x61, 0x62, 0x63]" and c' = "CStr [0x61, 0x62, 0x63]"
      and dt = "DateTime (Date 2024 3 15) 14 5 0 0" and s = "[0x61, 0x62, 0x63]"
      and tm = 0 and td = 0]
    v n
  show ?thesis
    unfolding t1 t2 t3 by (simp add: err_bind_def del: strptime.simps)
qed

text \<open>
  Claim C5 (date normalization): where the code departs from it. The claim has every native
  date or time value give its date component, and every value that is not a recognised date
  give a decode failure without an exception. A native date that is not a date-time (a
  \<^verbatim>\<open>datetime.date\<close>) fails \<^verbatim>\<open>isinstance(date_raw, datetime)\<close> and every later test, so the code
  gives the decode failure \<open>None\<close> for it, whatever the date. A numeric cell is handed to the
  spreadsheet library's serial conversion with no handler around the call, so whenever
  that conversion raises the normalizer raises with it instead of returning a decode
  failure. The serial 10^12 is such a cell: it lies far beyond 31 December 9999, the last
  day a Python date can hold.
\<close>

theorem date_normalization_defects:
  "normalize_date from_excel_date (CDate d) = Inr None
   \<and> (num_of c = Some x \<and> from_excel_date x = Inl err \<longrightarrow>
        normalize_date from_excel_date c = Inl err)"
proof -
  have a: "normalize_date from_excel_date (CDate d) = Inr None"
    by (simp add: normalize_date_def)
  have b: "num_of c = Some x \<and> from_excel_date x = Inl err \<longrightarrow>
        normalize_date from_excel_date c = Inl err"
    by (auto simp: normalize_date_numeric err_bind_def)
  from a b show ?thesis by blast
qed

theorem date_normalization_defects_witness:
  "num_of (CFloat 1000000000000) = Some 1000000000000
   \<and> normalize_date (\<lambda>x. Inl LibraryError) (CFloat 1000000000000) = Inl LibraryError
   \<and> normalize_date (\<lambda>x. Inl LibraryError) (CDate (Date 2024 3 15)) = Inr None"
  using date_normalization_defects[where from_excel_date = "\<lambda>x. Inl LibraryError"
      and c = "CFloat 1000000000000" and x = 1000000000000 and err = LibraryError
      and d = "Date 2024 3 15"]
  by simp

lemma parse_date_unicode_digits:
  "parse_date [0x662, 0x660, 0x662, 0x664, 0x2D, 0x30, 0x33, 0x2D, 0x31, 0x35] = Some (Date 2024 3 15)"
  "parse_date [0x31, 0x665, 0x2F, 0x30, 0x33, 0x2F, 0x32, 0x30, 0x32, 0x34, 0x20, 0x31, 0x660,
               0x3A, 0x33, 0x660] = Some (Date 2024 3 15)"
  "parse_date [0x661, 0x2F, 0x30, 0x33, 0x2F, 0x32, 0x30, 0x32, 0x34] = None"
  by (simp_all add: parse_date_def field_before_def year_then_def make_datetime_def valid_date_def
      days_in_month_def is_leap_def is_space_def is_digit_def digit_val_def digit_zero_def
      DECIMAL_ZEROS_def)

section \<open>Properties of the aggregator\<close>

lemma err_bind_Inr: "err_bind (Inr x) f = f x"
  by (simp add: err_bind_def)

lemma err_bind_Inl: "err_bind (Inl e) f = Inl e"
  by (simp add: err_bind_def)

lemma rows_loop_append:
  "rows_loop fe col_idx (rows @ rows') per_invoice =
     err_bind (rows_loop fe col_idx rows per_invoice) (rows_loop fe col_idx rows')"
proof (induction rows arbitrary: per_invoice)
  case Nil
  then show ?case by (simp add: err_bind_Inr)
next
  case (Cons row rows)
  show ?case
    by (cases "process_row fe col_idx row per_invoice")
      (simp_all add: err_bind_Inl err_bind_Inr Cons.IH)
qed

lemma process_row_skip:
  assumes "cell_at col_idx row COL_INVOICE = Inr invoice"
    and "cell_at col_idx row COL_EMPLOYEE = Inr emp"
    and "cell_at col_idx row COL_DATE = Inr date_raw"
    and "cell_at col_idx row COL_UNIT_PRICE = Inr unit_price"
    and "row_quantity col_idx row = Inr qty"
    and "normalize_date fe date_raw = Inr date"
    and "date = None \<or> \<not> truthy emp \<or> unit_price = CNone"
  shows "process_row fe col_idx row per_invoice = Inr per_invoice"
  using assms(7)
  by (auto simp: process_row_def assms(1-6) err_bind_Inr split: option.splits)

text \<open>
  What the two guards of the row loop do once the date cell has been converted without an
  exception. Take a row that has the four required columns (and
  the quantity column when the header has one) and whose date cell is converted without an
  exception. If the conversion gives no date, or the employee cell is empty or otherwise
  false, or the unit-price cell is empty, the row's step returns the line-item groups
  exactly as it got them; and since the transaction counts and the daily totals are
  computed from those groups alone, scanning the sheet gives the same result as scanning it
  with the row taken out.
\<close>

theorem row_skip:
  assumes "cell_at col_idx row COL_INVOICE = Inr invoice"
    and "cell_at col_idx row COL_EMPLOYEE = Inr emp"
    and "cell_at col_idx row COL_DATE = Inr date_raw"
    and "cell_at col_idx row COL_UNIT_PRICE = Inr unit_price"
    and "row_quantity col_idx row = Inr qty"
    and "normalize_date from_excel_date date_raw = Inr date"
    and "date = None \<or> \<not> truthy emp \<or> unit_price = CNone"
  shows "process_row from_excel_date col_idx row per_invoice = Inr per_invoice
       \<and> rows_loop from_excel_date col_idx (before @ row # after) per_invoice =
           rows_loop from_excel_date col_idx (before @ after) per_invoice"
proof -
  have skip: "process_row from_excel_date col_idx row p = Inr p" for p
    by (rule process_row_skip[OF assms])
  have "rows_loop from_excel_date col_idx (row # after) = rows_loop from_excel_date col_idx after"
    by (rule ext) (simp add: skip err_bind_Inr)
  then have "rows_loop from_excel_date col_idx (before @ row # after) per_invoice =
      rows_loop from_excel_date col_idx (before @ after) per_invoice"
    by (simp only: rows_loop_append[of _ _ before])
  with skip show ?thesis by simp
qed

lemmas date_defs =
  parse_date_def field_before_def year_then_def make_datetime_def valid_date_def
  days_in_month_def is_leap_def digit_simps is_space_def normalize_date_def

lemmas row_defs =
  process_row_def cell_at_def dict_lookup_def row_get_def row_quantity_def err_bind_def
  py_mul_def append_line_def dict_get_def Let_def
  QUANTITY_COL_NAME_def COL_INVOICE_def COL_EMPLOYEE_def COL_DATE_def COL_UNIT_PRICE_def
  REQUIRED_COLS_def

lemmas summing_defs =
  invoice_step_def py_sum_def count_incr_def totals_append_def

theorem row_skip_witness:
  "cell_at example_cols
     [CInt 7, CNone, CStr [0x32, 0x30, 0x32, 0x34, 0x2D, 0x30, 0x33, 0x2D, 0x31, 0x35], CInt 100, CInt 2]
     COL_EMPLOYEE = Inr CNone
   \<and> normalize_date (\<lambda>x. Inl LibraryError)
       (CStr [0x32, 0x30, 0x32, 0x34, 0x2D, 0x30, 0x33, 0x2D, 0x31, 0x35]) = Inr (Some (Date 2024 3 15))
   \<and> \<not> truthy CNone
   \<and> process_row (\<lambda>x. Inl LibraryError) example_cols
       [CInt 7, CNone, CStr [0x32, 0x30, 0x32, 0x34, 0x2D, 0x30, 0x33, 0x2D, 0x31, 0x35], CInt 100, CInt 2]
       [(KStr [0x41], [((Date 2024 3 15, KNum 1), [VNum 200])])]
     = Inr [(KStr [0x41], [((Date 2024 3 15, KNum 1), [VNum 200])])]"
proof -
  define row where "row =
    [CInt 7, CNone, CStr [0x32, 0x30, 0x32, 0x34, 0x2D, 0x30, 0x33, 0x2D, 0x31, 0x35], CInt 100, CInt 2]"
  have h1: "cell_at example_cols row COL_INVOICE = Inr (CInt 7)"
    and h2: "cell_at example_cols row COL_EMPLOYEE = Inr CNone"
    and h3: "cell_at example_cols row COL_DATE =
        Inr (CStr [0x32, 0x30, 0x32, 0x34, 0x2D, 0x30, 0x33, 0x2D, 0x31, 0x35])"
    and h4: "cell_at example_cols row COL_UNIT_PRICE = Inr (CInt 100)"
    and h5: "row_quantity example_cols row = Inr (CInt 2)"
    by (simp_all add: row_def example_cols_def row_defs)
  have h6: "normalize_date (\<lambda>x. Inl LibraryError)
      (CStr [0x32, 0x30, 0x32, 0x34, 0x2D, 0x30, 0x33, 0x2D, 0x31, 0x35]) = Inr (Some (Date 2024 3 15))"
    by (simp add: date_defs)
  have h7: "Some (Date 2024 3 15) = None \<or> \<not> truthy CNone \<or> CInt 100 = CNone"
    by simp
  from row_skip[OF h1 h2 h3 h4 h5 h6 h7, of "[(KStr [0x41], [((Date 2024 3 15, KNum 1), [VNum 200])])]" "[]" "[]"]
    h2 h6
  show ?thesis
    unfolding row_def by simp
qed

text \<open>
  Claim C9 (row-level skip): where the code departs from it. The claim has every row with a
  missing employee or a missing unit price skipped without an exception. The loop converts
  the date before it looks at the employee and the unit price, and the numeric branch calls
  the spreadsheet library's serial conversion with no handler (the text branch catches the
  \<^verbatim>\<open>ValueError\<close> of its parser and gives \<open>None\<close>, on which the loop skips the row). So for a
  row with a numeric date cell on which the conversion raises, the row's step raises the same
  exception, whatever the employee and unit-price cells hold, and so does the scan of the
  rows from that row on.
\<close>

theorem row_raises_when_conversion_raises:
  assumes "cell_at col_idx row COL_INVOICE = Inr invoice"
    and "cell_at col_idx row COL_EMPLOYEE = Inr emp"
    and "cell_at col_idx row COL_DATE = Inr date_raw"
    and "cell_at col_idx row COL_UNIT_PRICE = Inr unit_price"
    and "row_quantity col_idx row = Inr qty"
    and "num_of date_raw = Some x"
    and "from_excel_date x = Inl err"
  shows "normalize_date from_excel_date date_raw = Inl err
       \<and> process_row from_excel_date col_idx row per_invoice = Inl err
       \<and> rows_loop from_excel_date col_idx (row # after) per_invoice = Inl err"
proof -
  have n: "normalize_date from_excel_date date_raw = Inl err"
    by (simp add: normalize_date_numeric[OF assms(6)] assms(7) err_bind_Inl)
  have p: "process_row from_excel_date col_idx row per_invoice = Inl err"
    by (simp add: process_row_def assms(1-5) n err_bind_Inr err_bind_Inl)
  from n p show ?thesis
    by (simp add: err_bind_Inl)
qed

text \<open>
  The failing input: a row with no employee whose date cell is the number 10^12, a serial far
  beyond 31 December 9999, the last day a Python date can hold, so that the conversion can
  only raise. The row is not skipped; the analysis of the whole sheet fails.
\<close>

theorem row_skip_raises_on_serial_error:
  "cell_at example_cols [CInt 7, CNone, CFloat 1000000000000, CInt 100, CInt 2] COL_EMPLOYEE = Inr CNone
   \<and> num_of (CFloat 1000000000000) = Some 1000000000000
   \<and> process_row (\<lambda>x. Inl LibraryError) example_cols
         [CInt 7, CNone, CFloat 1000000000000, CInt 100, CInt 2] [] = Inl LibraryError
   \<and> analyze_workbook (\<lambda>v. []) (\<lambda>x. Inl LibraryError)
         [[CStr COL_INVOICE, CStr COL_EMPLOYEE, CStr COL_DATE, CStr COL_UNIT_PRICE,
           CStr QUANTITY_COL_NAME],
          [CInt 7, CNone, CFloat 1000000000000, CInt 100, CInt 2]] = Inl LibraryError"
proof -
  define row where "row = [CInt 7, CNone, CFloat 1000000000000, CInt 100, CInt 2]"
  have h1: "cell_at example_cols row COL_INVOICE = Inr (CInt 7)"
    and h2: "cell_at example_cols row COL_EMPLOYEE = Inr CNone"
    and h3: "cell_at example_cols row COL_DATE = Inr (CFloat 1000000000000)"
    and h4: "cell_at example_cols row COL_UNIT_PRICE = Inr (CInt 100)"
    and h5: "row_quantity example_cols row = Inr (CInt 2)"
    by (simp_all add: row_def example_cols_def row_defs)
  have h6: "num_of (CFloat 1000000000000) = Some 1000000000000"
    by simp
  have h7: "(\<lambda>x::real. Inl LibraryError :: pyerror + pydate) 1000000000000 = Inl LibraryError"
    by simp
  have hd: "find_header_row (\<lambda>v. [])
      [[CStr COL_INVOICE, CStr COL_EMPLOYEE, CStr COL_DATE, CStr COL_UNIT_PRICE,
        CStr QUANTITY_COL_NAME], row] REQUIRED_COLS = Inr (1, example_cols)"
    by (simp add: example_cols_def header_defs QUANTITY_COL_NAME_def COL_INVOICE_def
        COL_EMPLOYEE_def COL_DATE_def COL_UNIT_PRICE_def REQUIRED_COLS_def)
  note raised = row_raises_when_conversion_raises[OF h1 h2 h3 h4 h5 h6 h7, of "[]" "[]"]
  from raised have r: "process_row (\<lambda>x. Inl LibraryError) example_cols row [] = Inl LibraryError"
    by blast
  have "analyze_workbook (\<lambda>v. []) (\<lambda>x. Inl LibraryError)
      [[CStr COL_INVOICE, CStr COL_EMPLOYEE, CStr COL_DATE, CStr COL_UNIT_PRICE,
        CStr QUANTITY_COL_NAME], row] = Inl LibraryError"
    unfolding analyze_workbook_def hd by (simp add: err_bind_Inr err_bind_Inl r)
  with h2 h6 r show ?thesis
    unfolding row_def by blast
qed
































lemma example_header:
  "find_header_row str_of example_sheet REQUIRED_COLS = Inr (2, example_cols)"
  by (simp add: example_sheet_def example_cols_def header_defs QUANTITY_COL_NAME_def
      COL_INVOICE_def COL_EMPLOYEE_def COL_DATE_def COL_UNIT_PRICE_def REQUIRED_COLS_def)

lemma example_dates:
  "parse_date [0x31, 0x35, 0x2F, 0x30, 0x33, 0x2F, 0x32, 0x30, 0x32, 0x34, 0x20, 0x31, 0x30, 0x3A,
               0x33, 0x30] = Some (Date 2024 3 15)"
  "parse_date [0x32, 0x30, 0x32, 0x34, 0x2D, 0x30, 0x33, 0x2D, 0x31, 0x35] = Some (Date 2024 3 15)"
  by (simp_all add: date_defs)

lemma example_rows:
  "rows_loop from_excel_date example_cols (drop 2 example_sheet) [] =
     Inr [(KStr [0x41], [((Date 2024 3 15, KNum 1), [VNum 200, VNum 50]),
                         ((Date 2024 3 15, KNum 2), [VNum 800])])]"
  by (simp add: example_sheet_def example_cols_def example_dates normalize_date_def row_defs)

lemma example_summing:
  "summing_loop [(KStr [0x41], [((Date 2024 3 15, KNum 1), [VNum 200, VNum 50]),
                                ((Date 2024 3 15, KNum 2), [VNum 800])])] ([], []) =
     Inr ([(KStr [0x41], [(Date 2024 3 15, 2)])], [(KStr [0x41], [(Date 2024 3 15, [250, 800])])])"
  by (simp add: summing_defs err_bind_def dict_get_def Let_def)

lemma example_bonuses:
  "calculate_transaction_bonuses [(KStr [0x41], [(Date 2024 3 15, [250, 800])])]
       [(KStr [0x41], [(Date 2024 3 15, 2)])] =
     Inr ([(KStr [0x41], 65)], [(KStr [0x41], [(Over400, 20), (Over700, 10), (AvgBonus, 35)])])"
  by (simp add: engine_defs)

text \<open>
  Claim C1 (end-to-end example). Employee "A" has, on one day, invoice 1 with the line items
  (unit price 100, quantity 2) and (unit price 50, quantity 1) and invoice 2 with the line
  item (unit price 800, quantity 1). The row loop groups the line totals 200 and 50 under
  invoice 1 and 800 under invoice 2; the analysis returns the transaction count 2 and the
  totals 250 and 800 for that day, and the total bonus 65 for A, made of 20 for a
  transaction over 400, 10 for a transaction over 700 and 35 for the average of 525. The
  result does not depend on the two library functions, which this sheet never calls.
\<close>

theorem end_to_end_example:
  "rows_loop from_excel_date example_cols (drop 2 example_sheet) [] =
     Inr [(KStr [0x41], [((Date 2024 3 15, KNum 1), [VNum 200, VNum 50]),
                         ((Date 2024 3 15, KNum 2), [VNum 800])])]
   \<and> analyze_workbook str_of from_excel_date example_sheet =
     Inr ([(KStr [0x41], 65)],
          [(KStr [0x41], [(Over400, 20), (Over700, 10), (AvgBonus, 35)])],
          [(KStr [0x41], [(Date 2024 3 15, [250, 800])])],
          [(KStr [0x41], [(Date 2024 3 15, 2)])])"
proof -
  have "analyze_workbook str_of from_excel_date example_sheet =
     Inr ([(KStr [0x41], 65)],
          [(KStr [0x41], [(Over400, 20), (Over700, 10), (AvgBonus, 35)])],
          [(KStr [0x41], [(Date 2024 3 15, [250, 800])])],
          [(KStr [0x41], [(Date 2024 3 15, 2)])])"
    unfolding analyze_workbook_def
    by (simp only: example_header err_bind_Inr prod.case example_rows example_summing
        example_bonuses)
  with example_rows[of from_excel_date] show ?thesis
    by (intro conjI)
qed

end
